theory Spec2Isabelle
  imports Complex_Main "HOL-Library.Char_ord" "HOL-Library.List_Lexorder" "HOL-Library.Multiset"
begin

section \<open>Data model\<close>

text \<open>
  A pandas float is a \<open>real option\<close>, with \<open>None\<close> for NaN: the prices that \<open>yfinance\<close>
  returns may hold NaN, and the program does not drop such rows.  The rounding of binary
  floating point is a parameter of the model: every arithmetic operation of the
  moving-average routines passes its exact result through a function \<open>rnd\<close>, of which
  nothing is assumed.  \<open>exact\<close> is the choice that does not round.  Infinite values are
  not modelled.
\<close>

type_synonym float = "real option"

type_synonym rounding = "real \<Rightarrow> real"

definition exact :: rounding where
  "exact x = x"

datatype crossover = GOLDEN | DEATH | NONE

datatype error = ValueError

text \<open>One row of the frame returned by \<open>yfinance\<close>: the index value and the OHLCV columns.\<close>

record pricepoint =
  Date :: int
  Open :: float
  High :: float
  Low :: float
  Close :: float
  Volume :: float

text \<open>
  The columns that \<open>calculate_indicators\<close> assigns: \<open>f'EMA{ema_period}'\<close>,
  \<open>f'SMA{sma_period}'\<close> and \<open>'Crossover'\<close>.  The formatted names are kept as keys that
  carry the period, so two names are equal exactly when the strings are.
\<close>

datatype colkey = EMA_col nat | SMA_col nat | Crossover_col

datatype column = Floats "float list" | Labels "crossover list"

record dataframe =
  rows :: "pricepoint list"
  cols :: "colkey \<rightharpoonup> column"

definition empty :: "dataframe \<Rightarrow> bool" where
  "empty df = (rows df = [])"

definition close_column :: "dataframe \<Rightarrow> float list" where
  "close_column df = map Close (rows df)"

definition float_column :: "dataframe \<Rightarrow> colkey \<Rightarrow> float list" where
  "float_column df k = (case cols df k of Some (Floats xs) \<Rightarrow> xs | _ \<Rightarrow> [])"

definition label_column :: "dataframe \<Rightarrow> colkey \<Rightarrow> crossover list" where
  "label_column df k = (case cols df k of Some (Labels xs) \<Rightarrow> xs | _ \<Rightarrow> [])"

definition assign :: "dataframe \<Rightarrow> colkey \<Rightarrow> column \<Rightarrow> dataframe" where
  "assign df k c = df\<lparr>cols := (cols df)(k \<mapsto> c)\<rparr>"

section \<open>The pandas and numpy operations used by the program\<close>

subsection \<open>\<open>Series.ewm(span=..., adjust=False).mean()\<close>\<close>

text \<open>
  The update of the running value by an observation \<open>cur\<close>: the old value weighs
  \<open>old_wt\<close>, the observation \<open>new_wt\<close>, and a value equal to the observation is left
  as it is.
\<close>

definition ewm_update :: "rounding \<Rightarrow> real \<Rightarrow> real \<Rightarrow> real \<Rightarrow> real \<Rightarrow> real" where
  "ewm_update rnd old_wt new_wt weighted cur =
     (if weighted \<noteq> cur
      then rnd (rnd (rnd (old_wt * weighted) + rnd (new_wt * cur)) / rnd (old_wt + new_wt))
      else weighted)"

text \<open>
  One row of the loop, on the state \<open>(weighted, old_wt)\<close>.  While no observation has been
  seen the running value is NaN and takes the first observation as it is.  After that a NaN
  row leaves the running value unchanged and only decays the old weight; an observation
  updates the value and, with \<open>adjust=False\<close>, resets the old weight to 1.
\<close>

fun ewm_step :: "rounding \<Rightarrow> real \<Rightarrow> real \<Rightarrow> float \<times> real \<Rightarrow> float \<Rightarrow> float \<times> real" where
  "ewm_step rnd old_wt_factor new_wt (None, old_wt) cur = (cur, old_wt)"
| "ewm_step rnd old_wt_factor new_wt (Some weighted, old_wt) None =
     (Some weighted, rnd (old_wt * old_wt_factor))"
| "ewm_step rnd old_wt_factor new_wt (Some weighted, old_wt) (Some cur) =
     (Some (ewm_update rnd (rnd (old_wt * old_wt_factor)) new_wt weighted cur), 1)"

fun ewm_loop :: "rounding \<Rightarrow> real \<Rightarrow> real \<Rightarrow> float \<times> real \<Rightarrow> float list \<Rightarrow> float list" where
  "ewm_loop rnd old_wt_factor new_wt st [] = []"
| "ewm_loop rnd old_wt_factor new_wt st (cur # vals) =
     (let st' = ewm_step rnd old_wt_factor new_wt st cur
      in fst st' # ewm_loop rnd old_wt_factor new_wt st' vals)"

definition span_alpha :: "rounding \<Rightarrow> nat \<Rightarrow> real" where
  "span_alpha rnd spn = (let com = rnd ((real spn - 1) / 2) in rnd (1 / rnd (1 + com)))"


definition ewm_mean :: "rounding \<Rightarrow> nat \<Rightarrow> float list \<Rightarrow> error + float list" where
  "ewm_mean rnd spn vals =
     (if spn < 1 then Inl ValueError
      else Inr (case vals of
                  [] \<Rightarrow> []
                | v # rest \<Rightarrow>
                    let alpha = span_alpha rnd spn;
                        old_wt_factor = rnd (1 - alpha);
                        new_wt = alpha
                    in v # ewm_loop rnd old_wt_factor new_wt (v, 1) rest))"

subsection \<open>\<open>Series.rolling(window=...).mean()\<close>\<close>

text \<open>
  The fixed window ending at row \<open>i\<close> is \<open>[i + 1 - window, i + 1)\<close>, clipped at 0.  The
  window state holds the number of observations (rows that are not NaN), their
  compensated sum, the number of negative observations, and the length and value of the
  latest run of equal observations.  It is rebuilt when the window does not overlap the
  previous one, and otherwise slid by removing the rows that left and adding the row that
  entered.  \<open>min_periods\<close> defaults to the window size.
\<close>

record mean_state =
  nobs :: nat
  sum_x :: real
  neg_ct :: nat
  compensation_add :: real
  compensation_remove :: real
  num_consecutive_same_value :: nat
  prev_value :: float

definition init_mean :: "float \<Rightarrow> mean_state" where
  "init_mean v =
     \<lparr>nobs = 0, sum_x = 0, neg_ct = 0, compensation_add = 0, compensation_remove = 0,
      num_consecutive_same_value = 0, prev_value = v\<rparr>"

fun add_mean :: "rounding \<Rightarrow> float \<Rightarrow> mean_state \<Rightarrow> mean_state" where
  "add_mean rnd None st = st"
| "add_mean rnd (Some val) st =
     (let y = rnd (val - compensation_add st);
          t = rnd (sum_x st + y)
      in \<lparr>nobs = nobs st + 1,
          sum_x = t,
          neg_ct = (if val < 0 then neg_ct st + 1 else neg_ct st),
          compensation_add = rnd (rnd (t - sum_x st) - y),
          compensation_remove = compensation_remove st,
          num_consecutive_same_value =
            (if prev_value st = Some val then num_consecutive_same_value st + 1 else 1),
          prev_value = Some val\<rparr>)"

fun remove_mean :: "rounding \<Rightarrow> float \<Rightarrow> mean_state \<Rightarrow> mean_state" where
  "remove_mean rnd None st = st"
| "remove_mean rnd (Some val) st =
     (let y = rnd (- val - compensation_remove st);
          t = rnd (sum_x st + y)
      in \<lparr>nobs = nobs st - 1,
          sum_x = t,
          neg_ct = (if val < 0 then neg_ct st - 1 else neg_ct st),
          compensation_add = compensation_add st,
          compensation_remove = rnd (rnd (t - sum_x st) - y),
          num_consecutive_same_value = num_consecutive_same_value st,
          prev_value = prev_value st\<rparr>)"

definition calc_mean :: "rounding \<Rightarrow> nat \<Rightarrow> mean_state \<Rightarrow> float" where
  "calc_mean rnd minp st =
     (if nobs st \<ge> minp \<and> nobs st > 0
      then let result = rnd (sum_x st / real (nobs st))
           in if num_consecutive_same_value st \<ge> nobs st then prev_value st
              else if neg_ct st = 0 \<and> result < 0 then Some 0
              else if neg_ct st = nobs st \<and> result > 0 then Some 0
              else Some result
      else None)"

definition roll_window ::
  "rounding \<Rightarrow> nat \<Rightarrow> float list \<Rightarrow> nat \<Rightarrow> mean_state \<Rightarrow> mean_state" where
  "roll_window rnd window vals i st =
     (let s = i + 1 - window; e = i + 1
      in if i = 0 \<or> s \<ge> i
         then fold (\<lambda>j. add_mean rnd (vals ! j)) [s..<e]
                (init_mean (if s < length vals then vals ! s else None))
         else add_mean rnd (vals ! i)
                (fold (\<lambda>j. remove_mean rnd (vals ! j)) [i - window..<s] st))"

fun roll_mean_loop ::
  "rounding \<Rightarrow> nat \<Rightarrow> float list \<Rightarrow> mean_state \<Rightarrow> nat list \<Rightarrow> float list" where
  "roll_mean_loop rnd window vals st [] = []"
| "roll_mean_loop rnd window vals st (i # is) =
     (let st' = roll_window rnd window vals i st
      in calc_mean rnd window st' # roll_mean_loop rnd window vals st' is)"

definition rolling_mean :: "rounding \<Rightarrow> nat \<Rightarrow> float list \<Rightarrow> float list" where
  "rolling_mean rnd window vals =
     roll_mean_loop rnd window vals (init_mean None) [0..<length vals]"

text \<open>The state the loop holds after row \<open>i\<close>.\<close>

fun roll_state :: "rounding \<Rightarrow> nat \<Rightarrow> float list \<Rightarrow> nat \<Rightarrow> mean_state" where
  "roll_state rnd window vals 0 = roll_window rnd window vals 0 (init_mean None)"
| "roll_state rnd window vals (Suc i) =
     roll_window rnd window vals (Suc i) (roll_state rnd window vals i)"

text \<open>The observations among the rows \<open>a \<le> j < b\<close>, in row order.\<close>

definition observations :: "float list \<Rightarrow> nat \<Rightarrow> nat \<Rightarrow> real list" where
  "observations vals a b =
     concat (map (\<lambda>j. case vals ! j of Some v \<Rightarrow> [v] | None \<Rightarrow> []) [a..<b])"

text \<open>
  What the state holds in exact arithmetic, when \<open>win\<close> are the observations of the
  window and \<open>seen\<close> all observations so far.
\<close>

definition mean_inv :: "real list \<Rightarrow> real list \<Rightarrow> mean_state \<Rightarrow> bool" where
  "mean_inv win seen st =
     (nobs st = length win \<and> sum_x st = sum_list win \<and>
      neg_ct st = length (filter (\<lambda>v. v < 0) win) \<and>
      compensation_add st = 0 \<and> compensation_remove st = 0 \<and>
      num_consecutive_same_value st \<le> length seen \<and>
      list_all (\<lambda>v. prev_value st = Some v)
        (take (num_consecutive_same_value st) (rev seen)))"

subsection \<open>\<open>shift(1)\<close>, comparisons and \<open>np.where\<close>\<close>

definition shift1 :: "float list \<Rightarrow> float list" where
  "shift1 xs = (case xs of [] \<Rightarrow> [] | _ \<Rightarrow> None # butlast xs)"

text \<open>A comparison with NaN on either side is false.\<close>

fun float_gt :: "float \<Rightarrow> float \<Rightarrow> bool" where
  "float_gt (Some x) (Some y) = (x > y)"
| "float_gt _ _ = False"

fun float_lt :: "float \<Rightarrow> float \<Rightarrow> bool" where
  "float_lt (Some x) (Some y) = (x < y)"
| "float_lt _ _ = False"

fun float_le :: "float \<Rightarrow> float \<Rightarrow> bool" where
  "float_le (Some x) (Some y) = (x \<le> y)"
| "float_le _ _ = False"

fun float_ge :: "float \<Rightarrow> float \<Rightarrow> bool" where
  "float_ge (Some x) (Some y) = (x \<ge> y)"
| "float_ge _ _ = False"

definition series_and :: "bool list \<Rightarrow> bool list \<Rightarrow> bool list" where
  "series_and xs ys = map2 (\<and>) xs ys"

definition np_where :: "bool list \<Rightarrow> crossover \<Rightarrow> crossover list \<Rightarrow> crossover list" where
  "np_where cond x ys = map2 (\<lambda>c y. if c then x else y) cond ys"

definition np_where_scalar :: "bool list \<Rightarrow> crossover \<Rightarrow> crossover \<Rightarrow> crossover list" where
  "np_where_scalar cond x y = map (\<lambda>c. if c then x else y) cond"

section \<open>\<open>StockDataFetcher.calculate_indicators\<close>\<close>

text \<open>The nested \<open>np.where\<close> that fills the \<open>Crossover\<close> column from the two
  moving-average columns.\<close>

definition crossover_series :: "float list \<Rightarrow> float list \<Rightarrow> crossover list" where
  "crossover_series e s =
     np_where (series_and (map2 float_gt e s) (map2 float_le (shift1 e) (shift1 s)))
       GOLDEN
       (np_where_scalar
          (series_and (map2 float_lt e s) (map2 float_ge (shift1 e) (shift1 s)))
          DEATH NONE)"

text \<open>The three column assignments, in the order of the source, each reading the frame as
  the previous assignment left it.\<close>

definition assign_indicators :: "rounding \<Rightarrow> dataframe \<Rightarrow> nat \<Rightarrow> nat \<Rightarrow> error + dataframe" where
  "assign_indicators rnd df ema_period sma_period =
     (case ewm_mean rnd ema_period (close_column df) of
        Inl err \<Rightarrow> Inl err
      | Inr ema \<Rightarrow>
          let df1 = assign df (EMA_col ema_period) (Floats ema);
              df2 = assign df1 (SMA_col sma_period)
                      (Floats (rolling_mean rnd sma_period (close_column df1)))
          in Inr (assign df2 Crossover_col
                    (Labels (crossover_series (float_column df2 (EMA_col ema_period))
                                              (float_column df2 (SMA_col sma_period))))))"

text \<open>The value the caller gets back: \<open>None\<close> for a missing or empty frame.\<close>

definition calculate_indicators ::
  "rounding \<Rightarrow> dataframe option \<Rightarrow> nat \<Rightarrow> nat \<Rightarrow> error + dataframe option" where
  "calculate_indicators rnd df ema_period sma_period =
     (case df of
        None \<Rightarrow> Inr None
      | Some d \<Rightarrow>
          if empty d then Inr None
          else (case assign_indicators rnd d ema_period sma_period of
                  Inl err \<Rightarrow> Inl err
                | Inr d' \<Rightarrow> Inr (Some d')))"

text \<open>
  The same call on the object store: the argument is a reference (or \<open>None\<close>), the columns
  are assigned on the referenced frame itself, and the reference passed in is returned.
  When pandas raises, nothing has been assigned yet.
\<close>

type_synonym ref = nat

type_synonym heap = "ref \<rightharpoonup> dataframe"

definition calculate_indicators_inplace ::
  "rounding \<Rightarrow> heap \<Rightarrow> ref option \<Rightarrow> nat \<Rightarrow> nat \<Rightarrow> (error + ref option) \<times> heap" where
  "calculate_indicators_inplace rnd h df ema_period sma_period =
     (case df of
        None \<Rightarrow> (Inr None, h)
      | Some r \<Rightarrow>
          (case h r of
             None \<Rightarrow> (Inr None, h)
           | Some d \<Rightarrow>
               if empty d then (Inr None, h)
               else (case assign_indicators rnd d ema_period sma_period of
                       Inl err \<Rightarrow> (Inl err, h)
                     | Inr d' \<Rightarrow> (Inr (Some r), h(r \<mapsto> d')))))"

section \<open>\<open>StockDataFetcher.fetch_stock_data\<close>\<close>

text \<open>\<open>yf.Ticker(symbol).history(period)\<close> either raises or returns a frame.\<close>

datatype provider_result = Raises | History dataframe

type_synonym provider = "string \<Rightarrow> provider_result"

definition fetch_stock_data :: "provider \<Rightarrow> string \<Rightarrow> dataframe option" where
  "fetch_stock_data history symbol =
     (case history symbol of
        Raises \<Rightarrow> None
      | History df \<Rightarrow> if \<not> empty df then Some df else None)"

section \<open>\<open>StockApp.show_dashboard\<close>: the scan\<close>

text \<open>A row of the frame as \<open>iterrows\<close> yields it, with the columns the loop reads.\<close>

record indicator_row =
  row_index :: int
  row_close :: float
  row_ema :: float
  row_sma :: float
  row_crossover :: crossover

definition iterrows :: "dataframe \<Rightarrow> nat \<Rightarrow> nat \<Rightarrow> indicator_row list" where
  "iterrows df ema_period sma_period =
     map (\<lambda>i. \<lparr>row_index = Date (rows df ! i),
               row_close = Close (rows df ! i),
               row_ema = float_column df (EMA_col ema_period) ! i,
               row_sma = float_column df (SMA_col sma_period) ! i,
               row_crossover = label_column df Crossover_col ! i\<rparr>)
         [0..<length (rows df)]"

definition tail :: "nat \<Rightarrow> 'a list \<Rightarrow> 'a list" where
  "tail n xs = drop (length xs - n) xs"

text \<open>The dictionary appended to \<open>crossover_data\<close>.\<close>

record event =
  Symbol :: string
  Crossover :: crossover
  Price :: float
  EventDate :: int
  EMA_value :: float
  SMA_value :: float

definition event_of :: "string \<Rightarrow> indicator_row \<Rightarrow> event" where
  "event_of symbol row =
     \<lparr>Symbol = symbol, Crossover = row_crossover row, Price = row_close row,
      EventDate = row_index row, EMA_value = row_ema row, SMA_value = row_sma row\<rparr>"

text \<open>The body of the loop for one symbol: the events it appends.\<close>

definition symbol_crossovers ::
  "rounding \<Rightarrow> provider \<Rightarrow> nat \<Rightarrow> nat \<Rightarrow> nat \<Rightarrow> string \<Rightarrow> error + event list" where
  "symbol_crossovers rnd history ema_period sma_period days_to_look_back symbol =
     (case fetch_stock_data history symbol of
        None \<Rightarrow> Inr []
      | Some df \<Rightarrow>
          (case calculate_indicators rnd (Some df) ema_period sma_period of
             Inl err \<Rightarrow> Inl err
           | Inr None \<Rightarrow> Inr []
           | Inr (Some df') \<Rightarrow>
               if \<not> empty df'
               then let recent_data = tail days_to_look_back (iterrows df' ema_period sma_period);
                        crossovers = filter (\<lambda>row. row_crossover row \<noteq> NONE) recent_data
                    in Inr (map (event_of symbol) crossovers)
               else Inr []))"

text \<open>The events a symbol adds to \<open>crossover_data\<close>; none when its pass raises.\<close>

definition symbol_events :: "rounding \<Rightarrow> provider \<Rightarrow> nat \<Rightarrow> nat \<Rightarrow> nat \<Rightarrow> string \<Rightarrow> event list" where
  "symbol_events rnd history ema_period sma_period days_to_look_back symbol =
     (case symbol_crossovers rnd history ema_period sma_period days_to_look_back symbol of
        Inl err \<Rightarrow> []
      | Inr evs \<Rightarrow> evs)"

record scan_state =
  crossover_data :: "event list"
  progress_bar :: "real list"

text \<open>The loop over \<open>enumerate(self.symbols)\<close>; an exception leaves the loop.\<close>

fun scan_loop ::
  "rounding \<Rightarrow> provider \<Rightarrow> nat \<Rightarrow> nat \<Rightarrow> nat \<Rightarrow> nat \<Rightarrow> (nat \<times> string) list \<Rightarrow> scan_state
     \<Rightarrow> error + scan_state" where
  "scan_loop rnd history ema_period sma_period days_to_look_back n_symbols [] st = Inr st"
| "scan_loop rnd history ema_period sma_period days_to_look_back n_symbols ((i, symbol) # rest) st =
     (case symbol_crossovers rnd history ema_period sma_period days_to_look_back symbol of
        Inl err \<Rightarrow> Inl err
      | Inr evs \<Rightarrow>
          scan_loop rnd history ema_period sma_period days_to_look_back n_symbols rest
            \<lparr>crossover_data = crossover_data st @ evs,
             progress_bar = progress_bar st @ [(real i + 1) / real n_symbols]\<rparr>)"

definition scan ::
  "rounding \<Rightarrow> provider \<Rightarrow> string list \<Rightarrow> nat \<Rightarrow> nat \<Rightarrow> nat \<Rightarrow> error + scan_state" where
  "scan rnd history symbols days_to_look_back ema_period sma_period =
     scan_loop rnd history ema_period sma_period days_to_look_back (length symbols)
       (enumerate 0 symbols) \<lparr>crossover_data = [], progress_bar = []\<rparr>"

section \<open>\<open>StockApp.show_dashboard\<close>: sorting, filtering and counting\<close>

text \<open>
  \<open>sort_values('Date', ascending=False)\<close>: pandas reverses the rows, sorts the keys in
  ascending order and reverses the result.  The sort is numpy's default one, which is not
  stable: among rows with equal keys the order depends on the exchanges its partitioning
  happens to make.  The model takes these exchanges as a parameter, a list of pairs of
  positions: the rows are exchanged first and then sorted stably, so that every
  date-ordered arrangement of the rows is the result for some exchanges.  On arrays of at
  most 16 rows numpy sorts by insertion and no exchange is made.
\<close>

fun apply_exchanges :: "(nat \<times> nat) list \<Rightarrow> 'a list \<Rightarrow> 'a list" where
  "apply_exchanges [] xs = xs"
| "apply_exchanges ((i, j) # rest) xs =
     apply_exchanges rest
       (if i < length xs \<and> j < length xs then xs[i := xs ! j, j := xs ! i] else xs)"

definition sort_values_desc :: "(nat \<times> nat) list \<Rightarrow> event list \<Rightarrow> event list" where
  "sort_values_desc exchanges evs =
     rev (sort_key EventDate (apply_exchanges exchanges (rev evs)))"

record dashboard =
  filtered_df :: "event list"
  golden_crosses :: nat
  death_crosses :: nat

text \<open>Lines 113 to 132; \<open>show_dashboard\<close> runs them only on a non-empty \<open>crossover_data\<close>.\<close>

definition aggregate :: "(nat \<times> nat) list \<Rightarrow> event list \<Rightarrow> crossover list \<Rightarrow> dashboard" where
  "aggregate exchanges evs signal_filter =
     (let df_crossover = sort_values_desc exchanges evs;
          filtered = filter (\<lambda>ev. Crossover ev \<in> set signal_filter) df_crossover
      in \<lparr>filtered_df = filtered,
          golden_crosses = length (filter (\<lambda>ev. Crossover ev = GOLDEN) filtered),
          death_crosses = length (filter (\<lambda>ev. Crossover ev = DEATH) filtered)\<rparr>)"

text \<open>What the page shows: \<open>None\<close> stands for the message "No recent crossovers found".\<close>

definition show_dashboard ::
  "rounding \<Rightarrow> (nat \<times> nat) list \<Rightarrow> provider \<Rightarrow> string list \<Rightarrow> nat \<Rightarrow> nat \<Rightarrow> nat \<Rightarrow> crossover list
     \<Rightarrow> error + real list \<times> dashboard option" where
  "show_dashboard rnd exchanges history symbols days_to_look_back ema_period sma_period signal_filter =
     (case scan rnd history symbols days_to_look_back ema_period sma_period of
        Inl err \<Rightarrow> Inl err
      | Inr st \<Rightarrow>
          Inr (progress_bar st,
               if crossover_data st \<noteq> []
               then Some (aggregate exchanges (crossover_data st) signal_filter)
               else None))"

text \<open>The orders the specification names for the result table.\<close>

definition date_descending :: "event list \<Rightarrow> bool" where
  "date_descending evs = sorted_wrt (\<lambda>a b. EventDate a \<ge> EventDate b) evs"

definition date_descending_symbol_ascending :: "event list \<Rightarrow> bool" where
  "date_descending_symbol_ascending evs =
     sorted_wrt (\<lambda>a b. EventDate a > EventDate b \<or>
                        (EventDate a = EventDate b \<and> Symbol a \<le> Symbol b)) evs"

section \<open>The crossover events of one series\<close>

text \<open>The Crossover column of the frame that \<open>calculate_indicators\<close> returns; no rows
  when it returns \<open>None\<close> or raises.\<close>

definition crossover_labels :: "rounding \<Rightarrow> dataframe \<Rightarrow> nat \<Rightarrow> nat \<Rightarrow> crossover list" where
  "crossover_labels rnd df ema_period sma_period =
     (case calculate_indicators rnd (Some df) ema_period sma_period of
        Inr (Some df') \<Rightarrow> label_column df' Crossover_col
      | _ \<Rightarrow> [])"

text \<open>A moving-average column of that frame, likewise.\<close>

definition indicator_column :: "rounding \<Rightarrow> dataframe \<Rightarrow> nat \<Rightarrow> nat \<Rightarrow> colkey \<Rightarrow> float list" where
  "indicator_column rnd df ema_period sma_period k =
     (case calculate_indicators rnd (Some df) ema_period sma_period of
        Inr (Some df') \<Rightarrow> float_column df' k
      | _ \<Rightarrow> [])"






section \<open>Example inputs\<close>

text \<open>A frame with the given closing prices, on consecutive days.\<close>

definition frame_of_closes :: "float list \<Rightarrow> dataframe" where
  "frame_of_closes cs =
     \<lparr>rows = map (\<lambda>i. \<lparr>Date = int i, Open = cs ! i, High = cs ! i, Low = cs ! i,
                       Close = cs ! i, Volume = Some 0\<rparr>) [0..<length cs],
      cols = Map.empty\<rparr>"

definition example_closes :: "float list" where
  "example_closes = [Some 2, Some 1, Some 2, Some 2, Some 3]"

text \<open>The same prices with the second close missing.\<close>

definition example_closes_nan :: "float list" where
  "example_closes_nan = [Some 2, None, Some 2, Some 2, Some 3]"

text \<open>An object store holding one such frame at reference 0.\<close>

definition example_heap :: heap where
  "example_heap = Map.empty(0 \<mapsto> frame_of_closes example_closes)"

text \<open>A provider that has data for \<open>A\<close>, raises for \<open>B\<close> and returns an empty frame for
  every other symbol.\<close>

definition example_history :: provider where
  "example_history symbol =
     (if symbol = ''A'' then History (frame_of_closes example_closes)
      else if symbol = ''B'' then Raises
      else History (frame_of_closes []))"

text \<open>Two events of the same day, in the order a scan of \<open>MSFT\<close> before \<open>AAPL\<close> appends them.\<close>

definition example_events :: "event list" where
  "example_events =
     [\<lparr>Symbol = ''MSFT'', Crossover = GOLDEN, Price = Some 3, EventDate = 4,
       EMA_value = Some 3, SMA_value = Some (5 / 2)\<rparr>,
      \<lparr>Symbol = ''AAPL'', Crossover = DEATH, Price = Some 1, EventDate = 4,
       EMA_value = Some 1, SMA_value = Some (3 / 2)\<rparr>]"

section \<open>Properties of the exponential moving average\<close>




lemma ewm_loop_length: "length (ewm_loop rnd f nw st xs) = length xs"
  by (induction xs arbitrary: st) (simp_all add: Let_def)


lemma ewm_mean_length: "ewm_mean rnd e vals = Inr ema \<Longrightarrow> length ema = length vals"
  by (auto simp: ewm_mean_def ewm_loop_length Let_def split: if_splits list.splits)




section \<open>Properties of the rolling mean\<close>

lemma observations_empty [simp]: "observations vals a a = []"
  by (simp add: observations_def)

lemma observations_snoc:
  "a \<le> b \<Longrightarrow> observations vals a (Suc b) =
     observations vals a b @ (case vals ! b of Some v \<Rightarrow> [v] | None \<Rightarrow> [])"
  by (simp add: observations_def)

lemma observations_Cons:
  "a < b \<Longrightarrow> observations vals a b =
     (case vals ! a of Some v \<Rightarrow> [v] | None \<Rightarrow> []) @ observations vals (Suc a) b"
  by (simp add: observations_def upt_conv_Cons del: upt_Suc)

lemma observations_append:
  "a \<le> b \<Longrightarrow> b \<le> c \<Longrightarrow> observations vals a c = observations vals a b @ observations vals b c"
proof -
  assume "a \<le> b" "b \<le> c"
  then have "[a..<c] = [a..<b] @ [b..<c]"
    by (metis le_Suc_ex upt_add_eq_append)
  then show ?thesis by (simp add: observations_def)
qed

lemma observations_length_le: "length (observations vals a b) \<le> b - a"
proof (induction b)
  case 0
  then show ?case by (simp add: observations_def)
next
  case (Suc b)
  show ?case
  proof (cases "a \<le> b")
    case True
    with Suc show ?thesis
      by (auto simp: observations_snoc split: option.splits)
  next
    case False
    then show ?thesis by (simp add: observations_def)
  qed
qed

lemma observations_full:
  "length (observations vals a b) = b - a \<longleftrightarrow> (\<forall>j. a \<le> j \<and> j < b \<longrightarrow> vals ! j \<noteq> None)"
proof (induction b)
  case 0
  then show ?case by (simp add: observations_def)
next
  case (Suc b)
  show ?case
  proof (cases "a \<le> b")
    case True
    have le: "length (observations vals a b) \<le> b - a"
      by (rule observations_length_le)
    show ?thesis
    proof (cases "vals ! b")
      case None
      with True le show ?thesis
        by (auto simp: observations_snoc)
    next
      case (Some v)
      with True Suc show ?thesis
        by (auto simp: observations_snoc Suc_diff_le less_Suc_eq)
    qed
  next
    case False
    then show ?thesis by (auto simp: observations_def)
  qed
qed

lemma observations_all_Some:
  assumes "b \<le> length vals" and "\<forall>j. a \<le> j \<and> j < b \<longrightarrow> vals ! j \<noteq> None"
  shows "observations vals a b = map the (take (b - a) (drop a vals))"
  using assms
proof (induction b)
  case 0
  then show ?case by (simp add: observations_def)
next
  case (Suc b)
  show ?case
  proof (cases "a \<le> b")
    case True
    from Suc.prems obtain v where v: "vals ! b = Some v" using True by auto
    from Suc.prems have IH: "observations vals a b = map the (take (b - a) (drop a vals))"
      by (intro Suc.IH) auto
    have "take (Suc b - a) (drop a vals) = take (b - a) (drop a vals) @ [vals ! b]"
      using True Suc.prems(1) by (simp add: Suc_diff_le take_Suc_conv_app_nth)
    then show ?thesis
      using True by (simp add: observations_snoc IH v)
  next
    case False
    then show ?thesis by (simp add: observations_def)
  qed
qed

lemma roll_window_fresh:
  assumes "i = 0 \<or> w \<le> 1" and "i < length vals"
  shows "roll_window rnd w vals i st =
           (if w = 0 then init_mean (if i + 1 < length vals then vals ! (i + 1) else None)
            else add_mean rnd (vals ! i) (init_mean (vals ! i)))"
proof (cases "w = 0")
  case True
  then show ?thesis by (simp add: roll_window_def)
next
  case False
  with assms have s: "i + 1 - w = i" by auto
  have "[i..<i + 1] = [i]" by simp
  with s assms(2) False show ?thesis
    unfolding roll_window_def Let_def by simp
qed

lemma roll_window_slide:
  assumes "0 < i" and "2 \<le> w"
  shows "roll_window rnd w vals i st =
           add_mean rnd (vals ! i) (if w \<le> i then remove_mean rnd (vals ! (i - w)) st else st)"
proof -
  from assms have br: "\<not> (i = 0 \<or> i + 1 - w \<ge> i)" by auto
  have rng: "[i - w..<i + 1 - w] = (if w \<le> i then [i - w] else [])"
    using assms by (auto simp: Suc_diff_le)
  show ?thesis
    unfolding roll_window_def Let_def using br by (simp only: rng if_False) simp
qed

lemma roll_mean_loop_length: "length (roll_mean_loop rnd w vals st is) = length is"
  by (induction "is" arbitrary: st) (simp_all add: Let_def)

lemma rolling_mean_length: "length (rolling_mean rnd w vals) = length vals"
  by (simp add: rolling_mean_def roll_mean_loop_length)

lemma roll_window_0: "roll_window rnd w vals 0 st = roll_window rnd w vals 0 st'"
  by (simp add: roll_window_def)

lemma roll_mean_loop_nth:
  assumes "k = 0 \<or> st = roll_state rnd w vals (k - 1)" and "j < m"
  shows "roll_mean_loop rnd w vals st [k..<k + m] ! j =
           calc_mean rnd w (roll_state rnd w vals (k + j))"
  using assms
proof (induction m arbitrary: k st j)
  case 0
  then show ?case by simp
next
  case (Suc m)
  have st': "roll_window rnd w vals k st = roll_state rnd w vals k"
  proof (cases k)
    case 0
    then show ?thesis using roll_window_0 [of rnd w vals st "init_mean None"] by simp
  next
    case (Suc k')
    with Suc.prems(1) show ?thesis by simp
  qed
  have upt: "[k..<k + Suc m] = k # [Suc k..<Suc k + m]"
    by (simp add: upt_conv_Cons del: upt_Suc)
  show ?case
  proof (cases j)
    case 0
    then show ?thesis unfolding upt by (simp add: Let_def st')
  next
    case (Suc j')
    with Suc.prems have "j' < m" by simp
    from Suc.IH [OF _ this, of "Suc k" "roll_state rnd w vals k"]
    show ?thesis unfolding upt Suc by (simp add: Let_def st')
  qed
qed

lemma rolling_mean_nth_state:
  "t < length vals \<Longrightarrow> rolling_mean rnd w vals ! t = calc_mean rnd w (roll_state rnd w vals t)"
  using roll_mean_loop_nth [of 0 "init_mean None" rnd w vals t "length vals"]
  by (simp add: rolling_mean_def)

text \<open>Whatever the rounding, the state counts the observations of the window.\<close>

lemma roll_state_count:
  assumes "i < length vals"
  shows "nobs (roll_state rnd w vals i) = length (observations vals (i + 1 - w) (i + 1)) \<and>
         (prev_value (roll_state rnd w vals i) = None \<longrightarrow> nobs (roll_state rnd w vals i) = 0)"
  using assms
proof (induction i)
  case 0
  show ?case
  proof (cases "w = 0")
    case True
    then show ?thesis
      using 0 by (simp add: roll_window_fresh init_mean_def)
  next
    case False
    then have "0 + 1 - w = 0" by simp
    then show ?thesis
      using 0 False
      by (cases "vals ! 0")
         (simp_all add: roll_window_fresh init_mean_def observations_snoc Let_def)
  qed
next
  case (Suc i)
  then have i: "i < length vals" and IH:
    "nobs (roll_state rnd w vals i) = length (observations vals (i + 1 - w) (i + 1))"
    "prev_value (roll_state rnd w vals i) = None \<longrightarrow> nobs (roll_state rnd w vals i) = 0"
    by auto
  consider "w = 0" | "w = 1" | "2 \<le> w" by linarith
  then show ?case
  proof cases
    case 1
    then show ?thesis
      using Suc.prems by (simp add: roll_window_fresh init_mean_def)
  next
    case 2
    then show ?thesis
      using Suc.prems
      by (cases "vals ! Suc i")
         (simp_all add: roll_window_fresh init_mean_def observations_snoc Let_def)
  next
    case 3
    let ?st = "roll_state rnd w vals i"
    define mid where "mid = (if w \<le> Suc i then remove_mean rnd (vals ! (Suc i - w)) ?st else ?st)"
    have eq: "roll_state rnd w vals (Suc i) = add_mean rnd (vals ! Suc i) mid"
      using 3 by (simp add: roll_window_slide mid_def)
    have mid: "nobs mid = length (observations vals (Suc i + 1 - w) (Suc i))"
      "prev_value mid = None \<longrightarrow> nobs mid = 0"
    proof -
      show "nobs mid = length (observations vals (Suc i + 1 - w) (Suc i))"
      proof (cases "w \<le> Suc i")
        case True
        then have lt: "Suc i - w < Suc i" and nx: "Suc (Suc i - w) = Suc i + 1 - w"
          using 3 by auto
        have "observations vals (Suc i - w) (Suc i) =
            (case vals ! (Suc i - w) of Some v \<Rightarrow> [v] | None \<Rightarrow> []) @
            observations vals (Suc i + 1 - w) (Suc i)"
          using observations_Cons [OF lt, of vals] nx by simp
        moreover have "i + 1 - w = Suc i - w" by simp
        ultimately show ?thesis
          using IH(1) True by (cases "vals ! (Suc i - w)") (auto simp: Let_def mid_def)
      next
        case False
        then have "i + 1 - w = 0" "Suc i + 1 - w = 0" by simp_all
        with IH(1) False show ?thesis by (simp add: mid_def)
      qed
      show "prev_value mid = None \<longrightarrow> nobs mid = 0"
        using IH(2)
        by (cases "w \<le> Suc i"; cases "vals ! (Suc i - w)") (auto simp: Let_def mid_def)
    qed
    have b: "Suc i + 1 - w \<le> Suc i" using 3 by simp
    show ?thesis
    proof (cases "vals ! Suc i")
      case None
      with mid observations_snoc [OF b, of vals] show ?thesis
        unfolding eq by simp
    next
      case (Some v)
      with mid(1) observations_snoc [OF b, of vals] show ?thesis
        unfolding eq by (simp add: Let_def)
    qed
  qed
qed

lemma calc_mean_defined:
  assumes "prev_value st = None \<longrightarrow> nobs st = 0"
  shows "calc_mean rnd minp st \<noteq> None \<longleftrightarrow> nobs st \<ge> minp \<and> nobs st > 0"
  using assms by (auto simp: calc_mean_def Let_def)

lemma rolling_mean_defined_iff:
  assumes "t < length vals"
  shows "rolling_mean rnd w vals ! t \<noteq> None \<longleftrightarrow>
           1 \<le> w \<and> w - 1 \<le> t \<and> (\<forall>j. t + 1 - w \<le> j \<and> j < t + 1 \<longrightarrow> vals ! j \<noteq> None)"
proof -
  let ?st = "roll_state rnd w vals t"
  let ?a = "t + 1 - w"
  from roll_state_count [OF assms, of rnd w]
  have n: "nobs ?st = length (observations vals ?a (t + 1))"
    and p: "prev_value ?st = None \<longrightarrow> nobs ?st = 0"
    by auto
  have le: "nobs ?st \<le> t + 1 - ?a"
    unfolding n by (rule observations_length_le)
  have "rolling_mean rnd w vals ! t \<noteq> None \<longleftrightarrow> nobs ?st \<ge> w \<and> nobs ?st > 0"
    using calc_mean_defined [OF p] by (simp add: rolling_mean_nth_state [OF assms])
  also have "\<dots> \<longleftrightarrow> 1 \<le> w \<and> w - 1 \<le> t \<and> nobs ?st = t + 1 - ?a"
    using le by auto
  also have "\<dots> \<longleftrightarrow> 1 \<le> w \<and> w - 1 \<le> t \<and>
      (\<forall>j. ?a \<le> j \<and> j < t + 1 \<longrightarrow> vals ! j \<noteq> None)"
    unfolding n observations_full ..
  finally show ?thesis .
qed

text \<open>In exact arithmetic the state holds the sum of the observations of the window.\<close>

lemma mean_inv_init: "mean_inv [] seen (init_mean p)"
  by (simp add: mean_inv_def init_mean_def)

lemma mean_inv_add:
  assumes "mean_inv win seen st"
  shows "mean_inv (win @ [v]) (seen @ [v]) (add_mean exact (Some v) st)"
  using assms by (auto simp: mean_inv_def exact_def Let_def)

lemma mean_inv_remove:
  assumes "mean_inv (v # win) seen st"
  shows "mean_inv win seen (remove_mean exact (Some v) st)"
  using assms by (auto simp: mean_inv_def exact_def Let_def)

lemma roll_state_inv:
  assumes "i < length vals"
  shows "mean_inv (observations vals (i + 1 - w) (i + 1)) (observations vals 0 (i + 1))
           (roll_state exact w vals i)"
  using assms
proof (induction i)
  case 0
  show ?case
  proof (cases "w = 0")
    case True
    then show ?thesis
      using 0 by (simp add: roll_window_fresh mean_inv_init)
  next
    case False
    then have a: "0 + 1 - w = 0" by simp
    show ?thesis
    proof (cases "vals ! 0")
      case None
      then show ?thesis
        using 0 False by (simp add: roll_window_fresh a observations_snoc mean_inv_init)
    next
      case (Some v)
      from mean_inv_add [OF mean_inv_init [of "[]" "Some v"], of v]
      show ?thesis
        using 0 False Some by (simp add: roll_window_fresh a observations_snoc)
    qed
  qed
next
  case (Suc i)
  then have i: "i < length vals"
    and IH: "mean_inv (observations vals (i + 1 - w) (i + 1)) (observations vals 0 (i + 1))
               (roll_state exact w vals i)"
    by auto
  have seen: "observations vals 0 (Suc i + 1) =
      observations vals 0 (Suc i) @ (case vals ! Suc i of Some v \<Rightarrow> [v] | None \<Rightarrow> [])"
    using observations_snoc [of 0 "Suc i" vals] by simp
  consider "w = 0" | "w = 1" | "2 \<le> w" by linarith
  then show ?case
  proof cases
    case 1
    then show ?thesis
      using Suc.prems by (simp add: roll_window_fresh mean_inv_init)
  next
    case 2
    then have a: "Suc i + 1 - w = Suc i" by simp
    have win: "observations vals (Suc i) (Suc i + 1) =
        (case vals ! Suc i of Some v \<Rightarrow> [v] | None \<Rightarrow> [])"
      using observations_snoc [of "Suc i" "Suc i" vals] by simp
    show ?thesis
    proof (cases "vals ! Suc i")
      case None
      then show ?thesis
        using Suc.prems 2 unfolding a win seen
        by (simp add: roll_window_fresh mean_inv_init)
    next
      case (Some v)
      from mean_inv_add [OF mean_inv_init [of "observations vals 0 (Suc i)" "Some v"], of v]
      show ?thesis
        using Suc.prems 2 Some unfolding a win seen
        by (simp add: roll_window_fresh)
    qed
  next
    case 3
    let ?st = "roll_state exact w vals i"
    define mid where
      "mid = (if w \<le> Suc i then remove_mean exact (vals ! (Suc i - w)) ?st else ?st)"
    have eq: "roll_state exact w vals (Suc i) = add_mean exact (vals ! Suc i) mid"
      using 3 by (simp add: roll_window_slide mid_def)
    have mid: "mean_inv (observations vals (Suc i + 1 - w) (Suc i))
                 (observations vals 0 (Suc i)) mid"
    proof (cases "w \<le> Suc i")
      case True
      then have lt: "Suc i - w < Suc i" and nx: "Suc (Suc i - w) = Suc i + 1 - w"
        using 3 by auto
      have c: "observations vals (Suc i - w) (Suc i) =
          (case vals ! (Suc i - w) of Some v \<Rightarrow> [v] | None \<Rightarrow> []) @
          observations vals (Suc i + 1 - w) (Suc i)"
        using observations_Cons [OF lt, of vals] nx by simp
      have e: "i + 1 - w = Suc i - w" by simp
      show ?thesis
      proof (cases "vals ! (Suc i - w)")
        case None
        with IH c True show ?thesis by (simp add: mid_def e)
      next
        case (Some v)
        with IH c have "mean_inv (v # observations vals (Suc i + 1 - w) (Suc i))
            (observations vals 0 (Suc i)) ?st"
          by (simp add: e)
        from mean_inv_remove [OF this] Some True show ?thesis
          by (simp add: mid_def)
      qed
    next
      case False
      then have "i + 1 - w = 0" "Suc i + 1 - w = 0" by simp_all
      with IH False show ?thesis by (simp add: mid_def)
    qed
    have b: "Suc i + 1 - w \<le> Suc i" using 3 by simp
    have win: "observations vals (Suc i + 1 - w) (Suc i + 1) =
        observations vals (Suc i + 1 - w) (Suc i) @
        (case vals ! Suc i of Some v \<Rightarrow> [v] | None \<Rightarrow> [])"
      using observations_snoc [OF b, of vals] by simp
    show ?thesis
    proof (cases "vals ! Suc i")
      case None
      with mid show ?thesis unfolding eq win seen by simp
    next
      case (Some v)
      with mean_inv_add [OF mid, of v] show ?thesis unfolding eq win seen by simp
    qed
  qed
qed

lemma sum_list_const:
  "list_all (\<lambda>v. v = p) xs \<Longrightarrow> sum_list xs = real (length xs) * (p::real)"
  by (induction xs) (simp_all add: algebra_simps)

lemma sum_list_nonneg_filter:
  "filter (\<lambda>v. v < 0) xs = [] \<Longrightarrow> 0 \<le> sum_list (xs::real list)"
  by (induction xs) (auto split: if_splits)

lemma sum_list_neg_filter:
  "length (filter (\<lambda>v. v < 0) xs) = length xs \<Longrightarrow> xs \<noteq> [] \<Longrightarrow> sum_list (xs::real list) < 0"
proof (induction xs)
  case Nil
  then show ?case by simp
next
  case (Cons x xs)
  have le: "length (filter (\<lambda>v. v < 0) xs) \<le> length xs" by simp
  have x: "x < 0"
  proof (rule ccontr)
    assume "\<not> x < 0"
    with Cons.prems(1) le show False by simp
  qed
  with Cons.prems(1) have f: "length (filter (\<lambda>v. v < 0) xs) = length xs"
    by simp
  show ?case
  proof (cases "xs = []")
    case True
    with x show ?thesis by simp
  next
    case False
    from Cons.IH [OF f False] x show ?thesis by simp
  qed
qed

lemma calc_mean_exact:
  assumes inv: "mean_inv win (pre @ win) st" and "minp \<le> length win" and "win \<noteq> []"
  shows "calc_mean exact minp st = Some (sum_list win / real (length win))"
proof -
  from inv have n: "nobs st = length win" and s: "sum_x st = sum_list win"
    and g: "neg_ct st = length (filter (\<lambda>v. v < 0) win)"
    and r: "list_all (\<lambda>v. prev_value st = Some v)
              (take (num_consecutive_same_value st) (rev win @ rev pre))"
    by (simp_all add: mean_inv_def)
  have pos: "0 < length win" using assms(3) by simp
  show ?thesis
  proof (cases "num_consecutive_same_value st \<ge> nobs st")
    case True
    then have "take (num_consecutive_same_value st) (rev win @ rev pre) =
        rev win @ take (num_consecutive_same_value st - length win) (rev pre)"
      by (simp add: n)
    with r have all: "list_all (\<lambda>v. prev_value st = Some v) win"
      by (simp add: list_all_iff)
    from assms(3) obtain v vs where "win = v # vs" by (cases win) auto
    with all have p: "prev_value st = Some v" by simp
    with all have "list_all (\<lambda>x. x = v) win" by (auto simp: list_all_iff)
    from sum_list_const [OF this] pos have "sum_list win / real (length win) = v"
      by simp
    with True p show ?thesis
      using assms(2) pos by (simp add: calc_mean_def n Let_def)
  next
    case False
    have a: "\<not> (neg_ct st = 0 \<and> exact (sum_x st / real (nobs st)) < 0)"
    proof
      assume h: "neg_ct st = 0 \<and> exact (sum_x st / real (nobs st)) < 0"
      with g have "filter (\<lambda>v. v < 0) win = []" by simp
      then have "0 \<le> sum_list win" by (rule sum_list_nonneg_filter)
      with h pos show False
        by (simp add: exact_def s n divide_less_0_iff)
    qed
    have b: "\<not> (neg_ct st = nobs st \<and> exact (sum_x st / real (nobs st)) > 0)"
    proof
      assume h: "neg_ct st = nobs st \<and> exact (sum_x st / real (nobs st)) > 0"
      with g n have "length (filter (\<lambda>v. v < 0) win) = length win" by simp
      from sum_list_neg_filter [OF this assms(3)] h pos show False
        by (simp add: exact_def s n zero_less_divide_iff)
    qed
    from False a b show ?thesis
      using assms(2) pos by (auto simp: calc_mean_def n s Let_def exact_def)
  qed
qed

lemma rolling_mean_exact:
  assumes "t < length vals" and "1 \<le> w" and "w - 1 \<le> t"
    and "None \<notin> set (take w (drop (t + 1 - w) vals))"
  shows "rolling_mean exact w vals ! t =
           Some (sum_list (map the (take w (drop (t + 1 - w) vals))) / real w)"
proof -
  let ?a = "t + 1 - w"
  have wl: "t + 1 - ?a = w" using assms(2,3) by simp
  have some: "\<forall>j. ?a \<le> j \<and> j < t + 1 \<longrightarrow> vals ! j \<noteq> None"
  proof (intro allI impI)
    fix j assume j: "?a \<le> j \<and> j < t + 1"
    then have k: "j - ?a < w" "?a + (j - ?a) = j" using wl by auto
    have jl: "j < length vals" using j assms(1) by simp
    have "j - ?a < length (take w (drop ?a vals))"
      using k jl by simp
    moreover have "take w (drop ?a vals) ! (j - ?a) = vals ! j"
      using k jl by simp
    ultimately have "vals ! j \<in> set (take w (drop ?a vals))"
      using nth_mem by metis
    with assms(4) show "vals ! j \<noteq> None" by metis
  qed
  have win: "observations vals ?a (t + 1) = map the (take w (drop ?a vals))"
    using observations_all_Some [of "t + 1" vals ?a] assms(1) some wl by simp
  have len: "length (observations vals ?a (t + 1)) = w"
    using observations_full [of vals ?a "t + 1"] some wl by simp
  have split: "observations vals 0 (t + 1) =
      observations vals 0 ?a @ observations vals ?a (t + 1)"
    by (rule observations_append) simp_all
  have "mean_inv (observations vals ?a (t + 1))
      (observations vals 0 ?a @ observations vals ?a (t + 1)) (roll_state exact w vals t)"
    using roll_state_inv [OF assms(1), of w] unfolding split .
  moreover have "observations vals ?a (t + 1) \<noteq> []"
    using len assms(2) by auto
  ultimately have "calc_mean exact w (roll_state exact w vals t) =
      Some (sum_list (observations vals ?a (t + 1)) / real w)"
    using calc_mean_exact [of "observations vals ?a (t + 1)" "observations vals 0 ?a" _ w] len
    by simp
  then show ?thesis
    unfolding rolling_mean_nth_state [OF assms(1)] win [symmetric] .
qed

section \<open>Properties of the crossover column\<close>

lemma shift1_length: "length (shift1 xs) = length xs"
  by (cases xs) (simp_all add: shift1_def)

lemma shift1_nth: "t < length xs \<Longrightarrow> shift1 xs ! t = (if t = 0 then None else xs ! (t - 1))"
  by (cases xs; cases t) (simp_all add: shift1_def nth_butlast del: butlast.simps)

lemma crossover_series_length:
  "length e = length s \<Longrightarrow> length (crossover_series e s) = length e"
  by (simp add: crossover_series_def np_where_def np_where_scalar_def series_and_def shift1_length)

lemma crossover_series_nth:
  assumes "length e = length s" and "t < length e"
  shows "crossover_series e s ! t =
           (if float_gt (e ! t) (s ! t) \<and> 1 \<le> t \<and> float_le (e ! (t - 1)) (s ! (t - 1))
            then GOLDEN
            else if float_lt (e ! t) (s ! t) \<and> 1 \<le> t \<and> float_ge (e ! (t - 1)) (s ! (t - 1))
            then DEATH else NONE)"
  using assms
  by (simp add: crossover_series_def np_where_def np_where_scalar_def series_and_def
      shift1_length shift1_nth)

section \<open>What \<open>calculate_indicators\<close> leaves in the frame\<close>

lemma assign_indicators_result:
  assumes "assign_indicators rnd df e s = Inr df'"
  obtains ema where "ewm_mean rnd e (close_column df) = Inr ema"
    and "rows df' = rows df"
    and "float_column df' (EMA_col e) = ema"
    and "float_column df' (SMA_col s) = rolling_mean rnd s (close_column df)"
    and "label_column df' Crossover_col = crossover_series ema (rolling_mean rnd s (close_column df))"
    and "cols df' = (cols df)(EMA_col e \<mapsto> Floats ema,
           SMA_col s \<mapsto> Floats (rolling_mean rnd s (close_column df)),
           Crossover_col \<mapsto> Labels (crossover_series ema (rolling_mean rnd s (close_column df))))"
  using assms
  by (auto simp: assign_indicators_def assign_def float_column_def label_column_def
      close_column_def Let_def split: sum.splits)

lemma assign_indicators_returns:
  "1 \<le> e \<Longrightarrow> \<exists>df'. assign_indicators rnd df e s = Inr df'"
  by (simp add: assign_indicators_def ewm_mean_def Let_def)

lemma assign_indicators_raises:
  "e < 1 \<Longrightarrow> assign_indicators rnd df e s = Inl ValueError"
  by (simp add: assign_indicators_def ewm_mean_def)

lemma calculate_indicators_returns:
  assumes "1 \<le> e" and "rows df \<noteq> []"
  obtains df' where "calculate_indicators rnd (Some df) e s = Inr (Some df')"
    and "assign_indicators rnd df e s = Inr df'"
  using assms assign_indicators_returns [of e rnd df s]
  by (auto simp: calculate_indicators_def empty_def)

lemma frame_of_closes_rows [simp]:
  "length (rows (frame_of_closes cs)) = length cs"
  "i < length cs \<Longrightarrow> Close (rows (frame_of_closes cs) ! i) = cs ! i"
  "i < length cs \<Longrightarrow> Date (rows (frame_of_closes cs) ! i) = int i"
  "close_column (frame_of_closes cs) = cs"
  by (simp_all add: frame_of_closes_def close_column_def o_def map_nth)

lemma close_column_cols_update:
  "close_column (df\<lparr>cols := c\<rparr>) = close_column df"
  by (simp add: close_column_def)

lemma indicator_columns_eq:
  assumes "ewm_mean rnd e (close_column df) = Inr ema" and "rows df \<noteq> []"
  shows "indicator_column rnd df e s (EMA_col e) = ema"
    and "indicator_column rnd df e s (SMA_col s) = rolling_mean rnd s (close_column df)"
    and "crossover_labels rnd df e s = crossover_series ema (rolling_mean rnd s (close_column df))"
  using assms
  by (simp_all add: indicator_column_def crossover_labels_def calculate_indicators_def empty_def
      assign_indicators_def assign_def float_column_def label_column_def Let_def
      close_column_cols_update)


section \<open>Evaluation of the example inputs\<close>

lemma example_rows_nonempty:
  "rows (frame_of_closes example_closes) \<noteq> []"
  "rows (frame_of_closes example_closes_nan) \<noteq> []"
  by (simp_all add: frame_of_closes_def example_closes_def example_closes_nan_def)

lemma example_ewm:
  "ewm_mean exact 1 example_closes = Inr [Some 2, Some 1, Some 2, Some 2, Some 3]"
  "ewm_mean exact 1 example_closes_nan = Inr [Some 2, Some 2, Some 2, Some 2, Some 3]"
  by (simp_all add: ewm_mean_def span_alpha_def exact_def ewm_update_def Let_def
      example_closes_def example_closes_nan_def)

lemma example_rolling:
  "rolling_mean exact 2 example_closes =
     [None, Some (3 / 2), Some (3 / 2), Some 2, Some (5 / 2)]"
  "rolling_mean exact 2 example_closes_nan = [None, None, None, Some 2, Some (5 / 2)]"
  by (simp_all add: rolling_mean_def roll_window_def init_mean_def calc_mean_def exact_def
      Let_def upt_rec numeral_eq_Suc example_closes_def example_closes_nan_def)

lemma example_crossover:
  "crossover_series [Some 2, Some 1, Some 2, Some 2, Some 3]
     [None, Some (3 / 2), Some (3 / 2), Some 2, Some (5 / 2)] =
   [NONE, NONE, GOLDEN, NONE, GOLDEN]"
  by (simp add: crossover_series_def np_where_def np_where_scalar_def series_and_def shift1_def)

section \<open>The claims about \<open>calculate_indicators\<close>\<close>




text \<open>
  C3 as stated does not hold: a window that holds a missing close has no mean.  With closes
  2, NaN, 2, 2, 3 and \<open>sma_period = 2\<close> the SMA column is NaN, NaN, NaN, 2, 2.5: rows 1 and
  2 are at or after row \<open>sma_period - 1\<close> and have no value.
\<close>

theorem sma_trailing_mean_counterexample:
  "indicator_column exact (frame_of_closes example_closes_nan) 1 2 (SMA_col 2) =
     [None, None, None, Some 2, Some (5 / 2)] \<and>
   2 - 1 \<le> (1 :: nat) \<and>
   indicator_column exact (frame_of_closes example_closes_nan) 1 2 (SMA_col 2) ! 1 = None"
proof -
  have ewm: "ewm_mean exact 1 (close_column (frame_of_closes example_closes_nan)) =
      Inr [Some 2, Some 2, Some 2, Some 2, Some 3]"
    unfolding frame_of_closes_rows(4) by (rule example_ewm(2))
  show ?thesis
    unfolding indicator_columns_eq(2) [OF ewm example_rows_nonempty(2)]
    by (simp add: example_rolling)
qed

text \<open>
  C3, amended.  For a non-empty price series and both periods at least 1 the SMA column
  has, whatever the rounding of the arithmetic, NaN (not zero) at every row before row
  \<open>sma_period - 1\<close>, and from that row on a value exactly at the rows whose window of the
  closes \<open>t - sma_period + 1 .. t\<close> holds no missing close; without rounding that value is
  the arithmetic mean of the window.
\<close>

theorem sma_trailing_mean:
  assumes "1 \<le> ema_period" and "1 \<le> sma_period" and "rows df \<noteq> []"
  shows "\<exists>df'. calculate_indicators rnd (Some df) ema_period sma_period = Inr (Some df') \<and>
           (let sma = float_column df' (SMA_col sma_period);
                closes = close_column df
            in length sma = length (rows df) \<and>
               (\<forall>t < length (rows df).
                  (t < sma_period - 1 \<longrightarrow> sma ! t = None) \<and>
                  (sma_period - 1 \<le> t \<longrightarrow>
                     (sma ! t \<noteq> None \<longleftrightarrow>
                        None \<notin> set (take sma_period (drop (t + 1 - sma_period) closes)))) \<and>
                  (rnd = exact \<and> sma_period - 1 \<le> t \<and>
                   None \<notin> set (take sma_period (drop (t + 1 - sma_period) closes)) \<longrightarrow>
                     sma ! t =
                       Some (sum_list (map the (take sma_period (drop (t + 1 - sma_period) closes)))
                             / real sma_period))))"
proof -
  obtain df' where ret: "calculate_indicators rnd (Some df) ema_period sma_period = Inr (Some df')"
    and asg: "assign_indicators rnd df ema_period sma_period = Inr df'"
    using assms(1,3) by (rule calculate_indicators_returns)
  define closes where "closes = close_column df"
  from asg have col: "float_column df' (SMA_col sma_period) = rolling_mean rnd sma_period closes"
    unfolding closes_def by (rule assign_indicators_result)
  have lc: "length closes = length (rows df)"
    by (simp add: closes_def close_column_def)
  have window: "None \<notin> set (take sma_period (drop (t + 1 - sma_period) closes)) \<longleftrightarrow>
      (\<forall>j. t + 1 - sma_period \<le> j \<and> j < t + 1 \<longrightarrow> closes ! j \<noteq> None)"
    if t: "t < length closes" and w: "sma_period - 1 \<le> t" for t
  proof -
    let ?a = "t + 1 - sma_period"
    have l: "length (take sma_period (drop ?a closes)) = sma_period"
      using t w assms(2) by simp
    have n: "take sma_period (drop ?a closes) ! i = closes ! (?a + i)" if "i < sma_period" for i
      using that t w by simp
    show ?thesis
    proof
      assume a: "None \<notin> set (take sma_period (drop ?a closes))"
      show "\<forall>j. ?a \<le> j \<and> j < t + 1 \<longrightarrow> closes ! j \<noteq> None"
      proof (intro allI impI)
        fix j assume j: "?a \<le> j \<and> j < t + 1"
        then have i: "j - ?a < sma_period" "?a + (j - ?a) = j" using w assms(2) by auto
        have "take sma_period (drop ?a closes) ! (j - ?a) \<in> set (take sma_period (drop ?a closes))"
          using i(1) l by (metis nth_mem)
        with a n [OF i(1)] i(2) show "closes ! j \<noteq> None" by metis
      qed
    next
      assume a: "\<forall>j. ?a \<le> j \<and> j < t + 1 \<longrightarrow> closes ! j \<noteq> None"
      show "None \<notin> set (take sma_period (drop ?a closes))"
      proof
        assume "None \<in> set (take sma_period (drop ?a closes))"
        then obtain i where i: "i < sma_period" "take sma_period (drop ?a closes) ! i = None"
          using l by (metis in_set_conv_nth)
        then have "closes ! (?a + i) = None" using n by simp
        moreover have "?a \<le> ?a + i \<and> ?a + i < t + 1" using i(1) w assms(2) by auto
        ultimately show False using a by blast
      qed
    qed
  qed
  have row: "(t < sma_period - 1 \<longrightarrow> rolling_mean rnd sma_period closes ! t = None) \<and>
      (sma_period - 1 \<le> t \<longrightarrow>
         (rolling_mean rnd sma_period closes ! t \<noteq> None \<longleftrightarrow>
            None \<notin> set (take sma_period (drop (t + 1 - sma_period) closes)))) \<and>
      (rnd = exact \<and> sma_period - 1 \<le> t \<and>
       None \<notin> set (take sma_period (drop (t + 1 - sma_period) closes)) \<longrightarrow>
         rolling_mean rnd sma_period closes ! t =
           Some (sum_list (map the (take sma_period (drop (t + 1 - sma_period) closes)))
                 / real sma_period))"
    if t: "t < length (rows df)" for t
  proof (intro conjI impI)
    from t lc have tl: "t < length closes" by simp
    note iff = rolling_mean_defined_iff [OF tl, of rnd sma_period]
    show "rolling_mean rnd sma_period closes ! t = None" if "t < sma_period - 1"
      using iff that by auto
    show "rolling_mean rnd sma_period closes ! t \<noteq> None \<longleftrightarrow>
        None \<notin> set (take sma_period (drop (t + 1 - sma_period) closes))"
      if "sma_period - 1 \<le> t"
      unfolding iff window [OF tl that] using that assms(2) by simp
    show "rolling_mean rnd sma_period closes ! t =
        Some (sum_list (map the (take sma_period (drop (t + 1 - sma_period) closes)))
              / real sma_period)"
      if "rnd = exact \<and> sma_period - 1 \<le> t \<and>
          None \<notin> set (take sma_period (drop (t + 1 - sma_period) closes))"
      using rolling_mean_exact [OF tl assms(2), of ] that by simp
  qed
  have len: "length (rolling_mean rnd sma_period closes) = length (rows df)"
    by (simp add: rolling_mean_length lc)
  show ?thesis
    unfolding Let_def closes_def [symmetric]
  proof (rule exI [of _ df'], intro conjI)
    show "calculate_indicators rnd (Some df) ema_period sma_period = Inr (Some df')"
      by (rule ret)
    show "length (float_column df' (SMA_col sma_period)) = length (rows df)"
      unfolding col by (rule len)
    show "\<forall>t<length (rows df).
       (t < sma_period - 1 \<longrightarrow> float_column df' (SMA_col sma_period) ! t = None) \<and>
       (sma_period - 1 \<le> t \<longrightarrow>
          (float_column df' (SMA_col sma_period) ! t \<noteq> None \<longleftrightarrow>
             None \<notin> set (take sma_period (drop (t + 1 - sma_period) closes)))) \<and>
       (rnd = exact \<and> sma_period - 1 \<le> t \<and>
        None \<notin> set (take sma_period (drop (t + 1 - sma_period) closes)) \<longrightarrow>
          float_column df' (SMA_col sma_period) ! t =
            Some (sum_list (map the (take sma_period (drop (t + 1 - sma_period) closes)))
                  / real sma_period))"
      unfolding col by (intro allI impI) (rule row)
  qed
qed

theorem sma_trailing_mean_witness:
  "1 \<le> (3::nat) \<and> 1 \<le> (2::nat) \<and> rows (frame_of_closes example_closes) \<noteq> [] \<and>
   (\<exists>df'. calculate_indicators exact (Some (frame_of_closes example_closes)) 3 2 = Inr (Some df') \<and>
      float_column df' (SMA_col 2) ! 0 = None \<and>
      float_column df' (SMA_col 2) ! 4 = Some (5 / 2))"
proof -
  let ?F = "frame_of_closes example_closes"
  have h1: "1 \<le> (3::nat)" and h2: "1 \<le> (2::nat)" by simp_all
  obtain df' where ret: "calculate_indicators exact (Some ?F) 3 2 = Inr (Some df')"
    and sma: "\<forall>t < length (rows ?F).
        (t < 2 - 1 \<longrightarrow> float_column df' (SMA_col 2) ! t = None) \<and>
        (2 - 1 \<le> t \<longrightarrow>
           (float_column df' (SMA_col 2) ! t \<noteq> None \<longleftrightarrow>
              None \<notin> set (take 2 (drop (t + 1 - 2) (close_column ?F))))) \<and>
        (exact = exact \<and> 2 - 1 \<le> t \<and>
         None \<notin> set (take 2 (drop (t + 1 - 2) (close_column ?F))) \<longrightarrow>
           float_column df' (SMA_col 2) ! t =
             Some (sum_list (map the (take 2 (drop (t + 1 - 2) (close_column ?F)))) / real 2))"
    using sma_trailing_mean [where ema_period = 3 and sma_period = 2 and df = "?F" and rnd = exact,
        OF h1 h2 example_rows_nonempty(1)]
    unfolding Let_def by blast
  from sma [THEN spec, of 0] have "float_column df' (SMA_col 2) ! 0 = None"
    by (simp add: example_closes_def)
  moreover from sma [THEN spec, of 4] have "float_column df' (SMA_col 2) ! 4 = Some (5 / 2)"
    by (simp add: example_closes_def numeral_eq_Suc)
  ultimately show ?thesis using ret example_rows_nonempty(1) by auto
qed

text \<open>
  C1.  For a non-empty price series and both periods at least 1, the Crossover column at
  row \<open>t\<close> is GOLDEN exactly when \<open>t \<ge> 1\<close>, both averages have a value at \<open>t\<close> and \<open>t - 1\<close>,
  \<open>EMA[t] > SMA[t]\<close> and \<open>EMA[t-1] \<le> SMA[t-1]\<close>; DEATH exactly when the same holds with
  \<open>EMA[t] < SMA[t]\<close> and \<open>EMA[t-1] \<ge> SMA[t-1]\<close>; and NONE otherwise, in particular at row 0
  and wherever the SMA has no value at \<open>t\<close> or at \<open>t - 1\<close>.
\<close>

theorem crossover_classification:
  assumes "1 \<le> ema_period" and "1 \<le> sma_period" and "rows df \<noteq> []"
  shows "\<exists>df'. calculate_indicators rnd (Some df) ema_period sma_period = Inr (Some df') \<and>
           (let ema = float_column df' (EMA_col ema_period);
                sma = float_column df' (SMA_col sma_period);
                crossover = label_column df' Crossover_col
            in length crossover = length (rows df) \<and>
               (\<forall>t < length (rows df).
                  (crossover ! t = GOLDEN \<longleftrightarrow>
                     1 \<le> t \<and> (\<exists>a b c d. ema ! t = Some a \<and> sma ! t = Some b \<and>
                        ema ! (t - 1) = Some c \<and> sma ! (t - 1) = Some d \<and> a > b \<and> c \<le> d)) \<and>
                  (crossover ! t = DEATH \<longleftrightarrow>
                     1 \<le> t \<and> (\<exists>a b c d. ema ! t = Some a \<and> sma ! t = Some b \<and>
                        ema ! (t - 1) = Some c \<and> sma ! (t - 1) = Some d \<and> a < b \<and> c \<ge> d)) \<and>
                  (crossover ! t = GOLDEN \<or> crossover ! t = DEATH \<or> crossover ! t = NONE) \<and>
                  (t = 0 \<longrightarrow> crossover ! t = NONE) \<and>
                  (sma ! t = None \<longrightarrow> crossover ! t = NONE) \<and>
                  (1 \<le> t \<and> sma ! (t - 1) = None \<longrightarrow> crossover ! t = NONE)))"
proof -
  obtain df' where ret: "calculate_indicators rnd (Some df) ema_period sma_period = Inr (Some df')"
    and asg: "assign_indicators rnd df ema_period sma_period = Inr df'"
    using assms(1,3) by (rule calculate_indicators_returns)
  from asg obtain ema where ewm: "ewm_mean rnd ema_period (close_column df) = Inr ema"
    and ecol: "float_column df' (EMA_col ema_period) = ema"
    and scol: "float_column df' (SMA_col sma_period) = rolling_mean rnd sma_period (close_column df)"
    and ccol: "label_column df' Crossover_col =
                 crossover_series ema (rolling_mean rnd sma_period (close_column df))"
    by (rule assign_indicators_result)
  define sma where "sma = rolling_mean rnd sma_period (close_column df)"
  have len: "length ema = length (rows df)" "length sma = length (rows df)"
    using ewm_mean_length [OF ewm] by (simp_all add: sma_def rolling_mean_length close_column_def)
  have gt: "float_gt x y \<longleftrightarrow> (\<exists>a b. x = Some a \<and> y = Some b \<and> a > b)" for x y
    by (cases x; cases y) auto
  have lt: "float_lt x y \<longleftrightarrow> (\<exists>a b. x = Some a \<and> y = Some b \<and> a < b)" for x y
    by (cases x; cases y) auto
  have le: "float_le x y \<longleftrightarrow> (\<exists>a b. x = Some a \<and> y = Some b \<and> a \<le> b)" for x y
    by (cases x; cases y) auto
  have ge: "float_ge x y \<longleftrightarrow> (\<exists>a b. x = Some a \<and> y = Some b \<and> a \<ge> b)" for x y
    by (cases x; cases y) auto
  have nth: "crossover_series ema sma ! t =
      (if float_gt (ema ! t) (sma ! t) \<and> 1 \<le> t \<and> float_le (ema ! (t - 1)) (sma ! (t - 1))
       then GOLDEN
       else if float_lt (ema ! t) (sma ! t) \<and> 1 \<le> t \<and> float_ge (ema ! (t - 1)) (sma ! (t - 1))
       then DEATH else NONE)" if "t < length (rows df)" for t
    using crossover_series_nth [of ema sma t] that len by simp
  have row: "(crossover_series ema sma ! t = GOLDEN \<longleftrightarrow>
         1 \<le> t \<and> (\<exists>a b c d. ema ! t = Some a \<and> sma ! t = Some b \<and>
            ema ! (t - 1) = Some c \<and> sma ! (t - 1) = Some d \<and> a > b \<and> c \<le> d)) \<and>
      (crossover_series ema sma ! t = DEATH \<longleftrightarrow>
         1 \<le> t \<and> (\<exists>a b c d. ema ! t = Some a \<and> sma ! t = Some b \<and>
            ema ! (t - 1) = Some c \<and> sma ! (t - 1) = Some d \<and> a < b \<and> c \<ge> d)) \<and>
      (crossover_series ema sma ! t = GOLDEN \<or> crossover_series ema sma ! t = DEATH \<or>
         crossover_series ema sma ! t = NONE) \<and>
      (t = 0 \<longrightarrow> crossover_series ema sma ! t = NONE) \<and>
      (sma ! t = None \<longrightarrow> crossover_series ema sma ! t = NONE) \<and>
      (1 \<le> t \<and> sma ! (t - 1) = None \<longrightarrow> crossover_series ema sma ! t = NONE)"
    if "t < length (rows df)" for t
    unfolding nth [OF that] gt lt le ge by auto
  have "length (crossover_series ema sma) = length (rows df)"
    using len by (simp add: crossover_series_length)
  then have lenc: "length (label_column df' Crossover_col) = length (rows df)"
    by (simp add: ccol sma_def)
  show ?thesis
    unfolding Let_def
  proof (rule exI [of _ df'], intro conjI)
    show "calculate_indicators rnd (Some df) ema_period sma_period = Inr (Some df')"
      by (rule ret)
    show "length (label_column df' Crossover_col) = length (rows df)"
      by (rule lenc)
    show "\<forall>t<length (rows df).
       (label_column df' Crossover_col ! t = GOLDEN \<longleftrightarrow>
          1 \<le> t \<and> (\<exists>a b c d. float_column df' (EMA_col ema_period) ! t = Some a \<and>
             float_column df' (SMA_col sma_period) ! t = Some b \<and>
             float_column df' (EMA_col ema_period) ! (t - 1) = Some c \<and>
             float_column df' (SMA_col sma_period) ! (t - 1) = Some d \<and> a > b \<and> c \<le> d)) \<and>
       (label_column df' Crossover_col ! t = DEATH \<longleftrightarrow>
          1 \<le> t \<and> (\<exists>a b c d. float_column df' (EMA_col ema_period) ! t = Some a \<and>
             float_column df' (SMA_col sma_period) ! t = Some b \<and>
             float_column df' (EMA_col ema_period) ! (t - 1) = Some c \<and>
             float_column df' (SMA_col sma_period) ! (t - 1) = Some d \<and> a < b \<and> c \<ge> d)) \<and>
       (label_column df' Crossover_col ! t = GOLDEN \<or> label_column df' Crossover_col ! t = DEATH \<or>
          label_column df' Crossover_col ! t = NONE) \<and>
       (t = 0 \<longrightarrow> label_column df' Crossover_col ! t = NONE) \<and>
       (float_column df' (SMA_col sma_period) ! t = None \<longrightarrow>
          label_column df' Crossover_col ! t = NONE) \<and>
       (1 \<le> t \<and> float_column df' (SMA_col sma_period) ! (t - 1) = None \<longrightarrow>
          label_column df' Crossover_col ! t = NONE)"
      unfolding ecol scol ccol sma_def [symmetric]
      by (intro allI impI) (rule row)
  qed
qed

theorem crossover_classification_witness:
  "1 \<le> (1::nat) \<and> 1 \<le> (2::nat) \<and> rows (frame_of_closes example_closes) \<noteq> [] \<and>
   (\<exists>df'. calculate_indicators exact (Some (frame_of_closes example_closes)) 1 2 = Inr (Some df') \<and>
      length (label_column df' Crossover_col) = 5 \<and>
      label_column df' Crossover_col ! 0 = NONE)"
proof -
  let ?F = "frame_of_closes example_closes"
  have ne: "rows ?F \<noteq> []"
    by (simp add: frame_of_closes_def example_closes_def)
  have h1: "1 \<le> (1::nat)" and h2: "1 \<le> (2::nat)"
    by simp_all
  from crossover_classification [where ema_period = 1 and sma_period = 2 and df = "?F" and rnd = exact,
      OF h1 h2 ne]
  obtain df' where ret: "calculate_indicators exact (Some ?F) 1 2 = Inr (Some df')"
    and len: "length (label_column df' Crossover_col) = length (rows ?F)"
    and first: "0 < length (rows ?F) \<longrightarrow> label_column df' Crossover_col ! 0 = NONE"
    unfolding Let_def by fastforce
  from len first have "length (label_column df' Crossover_col) = 5"
    and "label_column df' Crossover_col ! 0 = NONE"
    by (simp_all add: example_closes_def)
  with ret ne show ?thesis by auto
qed

section \<open>The call on the object store\<close>

lemma assign_indicators_idem:
  assumes "assign_indicators rnd df e s = Inr df'"
  shows "assign_indicators rnd df' e s = Inr df'"
proof -
  from assms obtain ema where ewm: "ewm_mean rnd e (close_column df) = Inr ema"
    and rws: "rows df' = rows df"
    and cls: "cols df' = (cols df)(EMA_col e \<mapsto> Floats ema,
           SMA_col s \<mapsto> Floats (rolling_mean rnd s (close_column df)),
           Crossover_col \<mapsto> Labels (crossover_series ema (rolling_mean rnd s (close_column df))))"
    by (rule assign_indicators_result)
  have cc: "close_column df' = close_column df"
    by (simp add: close_column_def rws)
  have "assign_indicators rnd df' e s =
      Inr (df'\<lparr>cols := (cols df')(EMA_col e \<mapsto> Floats ema,
           SMA_col s \<mapsto> Floats (rolling_mean rnd s (close_column df)),
           Crossover_col \<mapsto> Labels (crossover_series ema (rolling_mean rnd s (close_column df))))\<rparr>)"
    by (simp add: assign_indicators_def cc ewm assign_def float_column_def Let_def
        close_column_cols_update)
  moreover have "(cols df')(EMA_col e \<mapsto> Floats ema,
           SMA_col s \<mapsto> Floats (rolling_mean rnd s (close_column df)),
           Crossover_col \<mapsto> Labels (crossover_series ema (rolling_mean rnd s (close_column df)))) = cols df'"
    unfolding cls by (auto simp: fun_eq_iff)
  ultimately show ?thesis by simp
qed

lemma assign_indicators_Inl_or_Inr:
  "assign_indicators rnd df e s = Inl ValueError \<or> (\<exists>df'. assign_indicators rnd df e s = Inr df')"
  by (cases "assign_indicators rnd df e s"; cases "1 \<le> e")
     (auto simp: assign_indicators_def ewm_mean_def Let_def)

text \<open>
  C10.  Calling \<open>calculate_indicators\<close> a second time on the same frame with the same
  periods returns what the first call returned and leaves the frame as the first call
  left it: the same EMA, SMA and Crossover values at every row.
\<close>

theorem calculate_indicators_idempotent:
  "calculate_indicators_inplace rnd (snd (calculate_indicators_inplace rnd h df e s)) df e s =
     calculate_indicators_inplace rnd h df e s"
proof (cases df)
  case None
  then show ?thesis by (simp add: calculate_indicators_inplace_def)
next
  case (Some r)
  show ?thesis
  proof (cases "h r")
    case None
    with Some show ?thesis by (simp add: calculate_indicators_inplace_def)
  next
    case (Some d)
    note d = this
    show ?thesis
    proof (cases "empty d")
      case True
      with d \<open>df = Some r\<close> show ?thesis by (simp add: calculate_indicators_inplace_def)
    next
      case False
      show ?thesis
      proof (cases "assign_indicators rnd d e s")
        case (Inl err)
        with d False \<open>df = Some r\<close> show ?thesis
          by (simp add: calculate_indicators_inplace_def)
      next
        case (Inr d')
        then have "rows d' = rows d" by (rule assign_indicators_result)
        with False have ne: "\<not> empty d'" by (simp add: empty_def)
        have first: "calculate_indicators_inplace rnd h df e s = (Inr (Some r), h(r \<mapsto> d'))"
          using d False Inr \<open>df = Some r\<close> by (simp add: calculate_indicators_inplace_def)
        have "calculate_indicators_inplace rnd (h(r \<mapsto> d')) (Some r) e s =
            (Inr (Some r), h(r \<mapsto> d'))"
          using ne assign_indicators_idem [OF Inr]
          by (simp add: calculate_indicators_inplace_def)
        with first \<open>df = Some r\<close> show ?thesis by simp
      qed
    qed
  qed
qed

theorem calculate_indicators_idempotent_witness:
  "calculate_indicators_inplace exact (snd (calculate_indicators_inplace exact example_heap (Some 0) 1 2))
     (Some 0) 1 2 = calculate_indicators_inplace exact example_heap (Some 0) 1 2"
  by (rule calculate_indicators_idempotent)

lemma example_heap_run:
  obtains d' where "assign_indicators exact (frame_of_closes example_closes) 1 2 = Inr d'"
    and "calculate_indicators_inplace exact example_heap (Some 0) 1 2 =
           (Inr (Some 0), example_heap(0 \<mapsto> d'))"
proof -
  obtain d' where asg: "assign_indicators exact (frame_of_closes example_closes) 1 2 = Inr d'"
    using assign_indicators_returns [of 1 exact "frame_of_closes example_closes" 2] by auto
  then have "calculate_indicators_inplace exact example_heap (Some 0) 1 2 =
      (Inr (Some 0), example_heap(0 \<mapsto> d'))"
    using example_rows_nonempty(1)
    by (simp add: calculate_indicators_inplace_def example_heap_def empty_def)
  with asg show ?thesis by (rule that)
qed

text \<open>
  C6 as stated does not hold: the call assigns three columns on the frame it is given and
  returns that very frame.
\<close>

theorem no_side_effects_counterexample:
  "fst (calculate_indicators_inplace exact example_heap (Some 0) 1 2) = Inr (Some 0) \<and>
   snd (calculate_indicators_inplace exact example_heap (Some 0) 1 2) 0 \<noteq> example_heap 0"
proof -
  let ?F = "frame_of_closes example_closes"
  obtain d' where asg: "assign_indicators exact ?F 1 2 = Inr d'"
    and run: "calculate_indicators_inplace exact example_heap (Some 0) 1 2 =
           (Inr (Some 0), example_heap(0 \<mapsto> d'))"
    by (rule example_heap_run)
  from asg have "cols d' Crossover_col \<noteq> None"
    by (rule assign_indicators_result) simp
  moreover have "cols ?F Crossover_col = None"
    by (simp add: frame_of_closes_def example_closes_def)
  ultimately have "d' \<noteq> ?F" by auto
  with run show ?thesis by (simp add: example_heap_def)
qed

text \<open>
  C6, amended.  The call leaves the rows of every frame (the index and the open, high,
  low, close and volume data) and every column other than \<open>EMA{e}\<close>, \<open>SMA{s}\<close> and
  \<open>Crossover\<close> as they were, touches no object other than its argument, and changes
  nothing at all when it returns \<open>None\<close> or raises; the three columns are assigned on the
  frame passed in, and a frame that is returned is that same object.
\<close>

theorem calculate_indicators_frame:
  assumes "calculate_indicators_inplace rnd h df e s = (res, h')"
  shows "(\<forall>r d. h r = Some d \<longrightarrow>
            (\<exists>d'. h' r = Some d' \<and> rows d' = rows d \<and>
               (\<forall>k. k \<noteq> EMA_col e \<and> k \<noteq> SMA_col s \<and> k \<noteq> Crossover_col \<longrightarrow>
                  cols d' k = cols d k))) \<and>
         (\<forall>r. df \<noteq> Some r \<longrightarrow> h' r = h r) \<and>
         (res = Inr None \<or> res = Inl ValueError \<longrightarrow> h' = h) \<and>
         (\<forall>r. res = Inr (Some r) \<longrightarrow> df = Some r \<and>
            (\<exists>d d'. h r = Some d \<and> assign_indicators rnd d e s = Inr d' \<and> h' r = Some d'))"
proof (cases df)
  case None
  with assms show ?thesis by (auto simp: calculate_indicators_inplace_def)
next
  case (Some r0)
  show ?thesis
  proof (cases "h r0")
    case None
    with Some assms show ?thesis by (auto simp: calculate_indicators_inplace_def)
  next
    case (Some d0)
    show ?thesis
    proof (cases "empty d0 \<or> assign_indicators rnd d0 e s = Inl ValueError")
      case True
      with Some \<open>df = Some r0\<close> assms have "h' = h" "res = Inr None \<or> res = Inl ValueError"
        by (auto simp: calculate_indicators_inplace_def split: if_splits)
      then show ?thesis by auto
    next
      case False
      then obtain d1 where asg: "assign_indicators rnd d0 e s = Inr d1"
        using assign_indicators_Inl_or_Inr [of rnd d0 e s] by auto
      from asg have keep: "rows d1 = rows d0"
        "\<And>k. k \<noteq> EMA_col e \<and> k \<noteq> SMA_col s \<and> k \<noteq> Crossover_col \<Longrightarrow> cols d1 k = cols d0 k"
        by (rule assign_indicators_result, simp)+
      have "res = Inr (Some r0)" "h' = h(r0 \<mapsto> d1)"
        using assms False Some \<open>df = Some r0\<close> asg
        by (auto simp: calculate_indicators_inplace_def)
      with keep Some asg \<open>df = Some r0\<close> show ?thesis by auto
    qed
  qed
qed

theorem calculate_indicators_frame_witness:
  "\<exists>h'. calculate_indicators_inplace exact example_heap (Some 0) 1 2 = (Inr (Some 0), h') \<and>
      (\<exists>d'. h' 0 = Some d' \<and> rows d' = rows (frame_of_closes example_closes) \<and>
         cols d' (EMA_col 7) = None)"
proof -
  let ?F = "frame_of_closes example_closes"
  obtain d1 where run: "calculate_indicators_inplace exact example_heap (Some 0) 1 2 =
           (Inr (Some 0), example_heap(0 \<mapsto> d1))"
    by (rule example_heap_run)
  have h0: "example_heap 0 = Some ?F"
    by (simp add: example_heap_def)
  from calculate_indicators_frame [OF run]
  have "\<forall>r d. example_heap r = Some d \<longrightarrow>
            (\<exists>d'. (example_heap(0 \<mapsto> d1)) r = Some d' \<and> rows d' = rows d \<and>
               (\<forall>k. k \<noteq> EMA_col 1 \<and> k \<noteq> SMA_col 2 \<and> k \<noteq> Crossover_col \<longrightarrow>
                  cols d' k = cols d k))"
    by (rule conjunct1)
  from this [THEN spec, THEN spec, THEN mp, OF h0]
  obtain d' where d': "(example_heap(0 \<mapsto> d1)) 0 = Some d'" "rows d' = rows ?F"
    and k: "\<forall>k. k \<noteq> EMA_col 1 \<and> k \<noteq> SMA_col 2 \<and> k \<noteq> Crossover_col \<longrightarrow>
                  cols d' k = cols ?F k"
    by blast
  from k [THEN spec, of "EMA_col 7"] have "cols d' (EMA_col 7) = None"
    by (simp add: frame_of_closes_def example_closes_def)
  with d' run show ?thesis by blast
qed

section \<open>Alternation of crossover events\<close>











section \<open>The scan\<close>

lemma symbol_crossovers_returns:
  assumes "1 \<le> e"
  shows "symbol_crossovers rnd hist e s n symbol = Inr (symbol_events rnd hist e s n symbol)"
proof (cases "fetch_stock_data hist symbol")
  case None
  then show ?thesis by (simp add: symbol_crossovers_def symbol_events_def)
next
  case (Some df)
  then have "rows df \<noteq> []"
    by (auto simp: fetch_stock_data_def empty_def split: provider_result.splits if_splits)
  with assms obtain df' where "calculate_indicators rnd (Some df) e s = Inr (Some df')"
    by (rule calculate_indicators_returns)
  with Some show ?thesis by (simp add: symbol_crossovers_def symbol_events_def Let_def)
qed

lemma scan_loop_result:
  assumes "1 \<le> e"
  shows "scan_loop rnd hist e s n m ps st =
           Inr \<lparr>crossover_data = crossover_data st @ concat (map (\<lambda>p. symbol_events rnd hist e s n (snd p)) ps),
                progress_bar = progress_bar st @ map (\<lambda>p. (real (fst p) + 1) / real m) ps\<rparr>"
proof (induction ps arbitrary: st)
  case Nil
  then show ?case by simp
next
  case (Cons p ps)
  obtain i symbol where p: "p = (i, symbol)" by (cases p)
  show ?case
    unfolding p using symbol_crossovers_returns [OF assms, of rnd hist s n symbol]
    by (simp add: Cons.IH)
qed

lemma map_snd_enumerate:
  "map (\<lambda>p. f (snd p)) (enumerate n xs) = map f xs"
  by (induction xs arbitrary: n) simp_all

lemma map_fst_enumerate:
  "map (\<lambda>p. f (fst p)) (enumerate n xs) = map f [n..<n + length xs]"
proof (induction xs arbitrary: n)
  case Nil
  then show ?case by simp
next
  case (Cons x xs)
  have "[n..<n + length (x # xs)] = n # [Suc n..<Suc n + length xs]"
    by (simp add: upt_conv_Cons del: upt_Suc)
  then show ?case
    using Cons.IH [of "Suc n"] by (simp del: upt_Suc)
qed

lemma scan_result:
  assumes "1 \<le> e"
  shows "scan rnd hist symbols n e s =
           Inr \<lparr>crossover_data = concat (map (symbol_events rnd hist e s n) symbols),
                progress_bar = map (\<lambda>i. (real i + 1) / real (length symbols)) [0..<length symbols]\<rparr>"
  unfolding scan_def scan_loop_result [OF assms]
  using map_snd_enumerate [of "symbol_events rnd hist e s n" 0 symbols]
    map_fst_enumerate [of "\<lambda>i. (real i + 1) / real (length symbols)" 0 symbols]
  by simp

lemma failed_fetch_no_events:
  assumes "hist symbol = Raises \<or> (\<exists>df. hist symbol = History df \<and> empty df)"
  shows "symbol_crossovers rnd hist e s n symbol = Inr []"
  using assms by (auto simp: symbol_crossovers_def fetch_stock_data_def)

lemma symbol_events_symbol:
  "ev \<in> set (symbol_events rnd hist e s n symbol) \<Longrightarrow> Symbol ev = symbol"
  by (auto simp: symbol_events_def symbol_crossovers_def event_of_def Let_def
      split: option.splits sum.splits if_splits)

lemma tail_map_upt:
  "tail n (map f [0..<m]) = map f [m - n..<m]"
  by (simp add: tail_def drop_map del: upt_Suc)

lemma symbol_crossovers_rows:
  assumes "fetch_stock_data hist symbol = Some df"
    and "calculate_indicators rnd (Some df) e s = Inr (Some df')"
  shows "symbol_crossovers rnd hist e s n symbol =
           Inr (map (\<lambda>i. event_of symbol (iterrows df' e s ! i))
                  (filter (\<lambda>i. label_column df' Crossover_col ! i \<noteq> NONE)
                     [length (rows df) - n..<length (rows df)]))"
proof -
  from assms(2) have ne: "\<not> empty df" and asg: "assign_indicators rnd df e s = Inr df'"
    by (auto simp: calculate_indicators_def split: if_splits sum.splits)
  from asg have rws: "rows df' = rows df"
    by (rule assign_indicators_result)
  define row where "row i = \<lparr>row_index = Date (rows df' ! i),
               row_close = Close (rows df' ! i),
               row_ema = float_column df' (EMA_col e) ! i,
               row_sma = float_column df' (SMA_col s) ! i,
               row_crossover = label_column df' Crossover_col ! i\<rparr>" for i
  have it: "iterrows df' e s = map row [0..<length (rows df)]"
    by (simp add: iterrows_def row_def rws)
  have nth: "iterrows df' e s ! i = row i" if "i \<in> set [length (rows df) - n..<length (rows df)]" for i
    using that by (simp add: it del: upt_Suc)
  have "symbol_crossovers rnd hist e s n symbol =
      Inr (map (event_of symbol)
             (filter (\<lambda>r. row_crossover r \<noteq> NONE) (tail n (iterrows df' e s))))"
    using assms ne rws by (simp add: symbol_crossovers_def Let_def empty_def)
  also have "filter (\<lambda>r. row_crossover r \<noteq> NONE) (tail n (iterrows df' e s)) =
      map row (filter (\<lambda>i. label_column df' Crossover_col ! i \<noteq> NONE)
                 [length (rows df) - n..<length (rows df)])"
    unfolding it tail_map_upt by (simp add: filter_map o_def row_def del: upt_Suc)
  also have "map (event_of symbol) (map row (filter (\<lambda>i. label_column df' Crossover_col ! i \<noteq> NONE)
                 [length (rows df) - n..<length (rows df)])) =
      map (\<lambda>i. event_of symbol (iterrows df' e s ! i))
        (filter (\<lambda>i. label_column df' Crossover_col ! i \<noteq> NONE)
           [length (rows df) - n..<length (rows df)])"
    using nth by (simp del: upt_Suc)
  finally show ?thesis .
qed

section \<open>The claims about the scan\<close>

text \<open>
  C7.  A symbol whose fetch raises in the provider, or returns an empty frame, adds no event
  to \<open>crossover_data\<close>: the scan does not stop, ends with the same events as a scan of the
  universe without that symbol, none of them carrying the symbol, and the progress bar is
  set once per symbol, the last time to \<open>len(symbols) / len(symbols) = 1\<close>.
\<close>

theorem failed_fetch_is_absorbed:
  assumes "1 \<le> ema_period"
    and "history symbol = Raises \<or> (\<exists>df. history symbol = History df \<and> empty df)"
  shows "symbol_crossovers rnd history ema_period sma_period days symbol = Inr [] \<and>
         (\<exists>st st'.
            scan rnd history (before @ symbol # after) days ema_period sma_period = Inr st \<and>
            scan rnd history (before @ after) days ema_period sma_period = Inr st' \<and>
            crossover_data st = crossover_data st' \<and>
            (\<forall>ev \<in> set (crossover_data st). Symbol ev \<noteq> symbol) \<and>
            progress_bar st =
              map (\<lambda>i. (real i + 1) / real (length (before @ symbol # after)))
                [0..<length (before @ symbol # after)] \<and>
            last (progress_bar st) = 1)"
proof -
  let ?ev = "symbol_events rnd history ema_period sma_period days"
  let ?u = "before @ symbol # after"
  have none: "symbol_crossovers rnd history ema_period sma_period days symbol = Inr []"
    using assms(2) by (rule failed_fetch_no_events)
  then have ev0: "?ev symbol = []"
    by (simp add: symbol_events_def)
  have same: "concat (map ?ev ?u) = concat (map ?ev (before @ after))"
    by (simp add: ev0)
  have sym: "Symbol ev \<noteq> symbol" if "ev \<in> set (concat (map ?ev ?u))" for ev
  proof -
    from that obtain y where y: "y \<in> set ?u" "ev \<in> set (?ev y)" by auto
    then have "Symbol ev = y" by (auto dest: symbol_events_symbol)
    moreover from y ev0 have "y \<noteq> symbol" by auto
    ultimately show ?thesis by simp
  qed
  have "last (map (\<lambda>i. (real i + 1) / real (length ?u)) [0..<length ?u]) = 1"
    by (simp add: last_map)
  with same sym show ?thesis
    unfolding scan_result [OF assms(1)] using none by auto
qed

theorem failed_fetch_is_absorbed_witness:
  "1 \<le> (1::nat) \<and>
   (example_history ''B'' = Raises \<or>
      (\<exists>df. example_history ''B'' = History df \<and> empty df)) \<and>
   symbol_crossovers exact example_history 1 2 7 ''B'' = Inr [] \<and>
   (\<exists>st. scan exact example_history [''A'', ''B'', ''C''] 7 1 2 = Inr st \<and>
      progress_bar st = [1 / 3, 2 / 3, 1])"
proof -
  have h1: "1 \<le> (1::nat)" by simp
  have h2: "example_history ''B'' = Raises \<or>
      (\<exists>df. example_history ''B'' = History df \<and> empty df)"
    by (simp add: example_history_def)
  from failed_fetch_is_absorbed [where ema_period = 1 and history = example_history
      and symbol = "''B''" and sma_period = 2 and days = 7 and before = "[''A'']"
      and after = "[''C'']" and rnd = exact, OF h1 h2]
  obtain st where "symbol_crossovers exact example_history 1 2 7 ''B'' = Inr []"
    and "scan exact example_history [''A'', ''B'', ''C''] 7 1 2 = Inr st"
    and "progress_bar st = map (\<lambda>i. (real i + 1) / real (length [''A'', ''B'', ''C'']))
                [0..<length [''A'', ''B'', ''C'']]"
    by auto
  then show ?thesis
    using h2 by (auto simp: upt_rec numeral_eq_Suc)
qed

text \<open>
  C8.  The events a symbol contributes are exactly the rows of its frame at the positions
  \<open>len - days_to_look_back \<le> i < len\<close> (all rows when there are fewer) whose Crossover
  is not NONE, in row order: a count of trailing rows, whatever their dates.
\<close>

theorem lookback_is_trailing_rows:
  assumes "1 \<le> ema_period" and "history symbol = History df" and "rows df \<noteq> []"
  shows "\<exists>df'. calculate_indicators rnd (Some df) ema_period sma_period = Inr (Some df') \<and>
           symbol_crossovers rnd history ema_period sma_period days_to_look_back symbol =
             Inr (map (\<lambda>i. event_of symbol (iterrows df' ema_period sma_period ! i))
                    (filter (\<lambda>i. label_column df' Crossover_col ! i \<noteq> NONE)
                       [length (rows df) - days_to_look_back..<length (rows df)]))"
proof -
  from assms(1,3) obtain df' where
    ret: "calculate_indicators rnd (Some df) ema_period sma_period = Inr (Some df')"
    by (rule calculate_indicators_returns)
  have "fetch_stock_data history symbol = Some df"
    using assms(2,3) by (simp add: fetch_stock_data_def empty_def)
  from symbol_crossovers_rows [OF this ret] ret show ?thesis by blast
qed

theorem lookback_is_trailing_rows_witness:
  "1 \<le> (1::nat) \<and> example_history ''A'' = History (frame_of_closes example_closes) \<and>
   rows (frame_of_closes example_closes) \<noteq> [] \<and>
   symbol_crossovers exact example_history 1 2 2 ''A'' =
     Inr [\<lparr>Symbol = ''A'', Crossover = GOLDEN, Price = Some 3, EventDate = 4,
           EMA_value = Some 3, SMA_value = Some (5 / 2)\<rparr>]"
proof -
  let ?F = "frame_of_closes example_closes"
  have h1: "1 \<le> (1::nat)" by simp
  have h2: "example_history ''A'' = History ?F"
    by (simp add: example_history_def)
  have h3: "rows ?F \<noteq> []"
    by (rule example_rows_nonempty(1))
  from lookback_is_trailing_rows [where ema_period = 1 and history = example_history
      and symbol = "''A''" and df = "?F" and sma_period = 2 and days_to_look_back = 2 and rnd = exact,
      OF h1 h2 h3]
  obtain df' where ret: "calculate_indicators exact (Some ?F) 1 2 = Inr (Some df')"
    and sc: "symbol_crossovers exact example_history 1 2 2 ''A'' =
             Inr (map (\<lambda>i. event_of ''A'' (iterrows df' 1 2 ! i))
                    (filter (\<lambda>i. label_column df' Crossover_col ! i \<noteq> NONE)
                       [length (rows ?F) - 2..<length (rows ?F)]))"
    by blast
  from ret have asg: "assign_indicators exact ?F 1 2 = Inr df'"
    by (auto simp: calculate_indicators_def split: if_splits sum.splits)
  have ewm: "ewm_mean exact 1 (close_column ?F) = Inr [Some 2, Some 1, Some 2, Some 2, Some 3]"
    unfolding frame_of_closes_rows(4) by (rule example_ewm(1))
  have sma: "rolling_mean exact 2 (close_column ?F) =
      [None, Some (3 / 2), Some (3 / 2), Some 2, Some (5 / 2)]"
    unfolding frame_of_closes_rows(4) by (rule example_rolling(1))
  note lab = example_crossover
  from asg obtain ema where "ewm_mean exact 1 (close_column ?F) = Inr ema"
    and "rows df' = rows ?F"
    and "float_column df' (EMA_col 1) = ema"
    and "float_column df' (SMA_col 2) = rolling_mean exact 2 (close_column ?F)"
    and "label_column df' Crossover_col = crossover_series ema (rolling_mean exact 2 (close_column ?F))"
    by (rule assign_indicators_result)
  then have cols: "rows df' = rows ?F"
    "float_column df' (EMA_col 1) = [Some 2, Some 1, Some 2, Some 2, Some 3]"
    "float_column df' (SMA_col 2) = [None, Some (3 / 2), Some (3 / 2), Some 2, Some (5 / 2)]"
    "label_column df' Crossover_col = [NONE, NONE, GOLDEN, NONE, GOLDEN]"
    using ewm sma lab by simp_all
  have len: "length (rows ?F) = 5"
    by (simp add: example_closes_def)
  have idx: "[length (rows ?F) - 2..<length (rows ?F)] = [3, 4]"
    unfolding len by (simp add: upt_conv_Cons)
  have row: "iterrows df' 1 2 ! 4 = \<lparr>row_index = 4, row_close = Some 3, row_ema = Some 3,
      row_sma = Some (5 / 2), row_crossover = GOLDEN\<rparr>"
    unfolding iterrows_def cols by (simp add: example_closes_def del: upt_Suc One_nat_def)
  have "symbol_crossovers exact example_history 1 2 2 ''A'' =
     Inr [\<lparr>Symbol = ''A'', Crossover = GOLDEN, Price = Some 3, EventDate = 4,
           EMA_value = Some 3, SMA_value = Some (5 / 2)\<rparr>]"
    unfolding sc idx cols by (simp add: row event_of_def del: One_nat_def)
  with h2 h3 show ?thesis by simp
qed

section \<open>Sorting, filtering and counting\<close>

lemma apply_exchanges_mset: "mset (apply_exchanges exchanges xs) = mset xs"
proof (induction exchanges arbitrary: xs)
  case Nil
  then show ?case by simp
next
  case (Cons p exchanges)
  obtain i j where p: "p = (i, j)" by (cases p)
  show ?case
    unfolding p by (simp add: Cons.IH mset_swap)
qed

lemma sort_values_desc_mset: "mset (sort_values_desc exchanges evs) = mset evs"
  by (simp add: sort_values_desc_def apply_exchanges_mset)

lemma sort_values_desc_sorted:
  "sorted_wrt (\<lambda>a b. EventDate a \<ge> EventDate b) (sort_values_desc exchanges evs)"
proof -
  have "sorted (map EventDate (sort_key EventDate (apply_exchanges exchanges (rev evs))))"
    by (rule sorted_sort_key)
  then have "sorted_wrt (\<lambda>a b. EventDate a \<le> EventDate b) (sort_key EventDate (apply_exchanges exchanges (rev evs)))"
    by (simp add: sorted_map)
  then show ?thesis
    unfolding sort_values_desc_def by (simp add: sorted_wrt_rev)
qed

lemma sorted_wrt_filter_keep:
  "sorted_wrt R xs \<Longrightarrow> sorted_wrt R (filter P xs)"
  by (induction xs) auto

text \<open>
  C5 as stated does not hold: events of the same day are not ordered by symbol.
\<close>

theorem tie_order_counterexample:
  "filtered_df (aggregate [] example_events [GOLDEN, DEATH]) = example_events \<and>
   \<not> date_descending_symbol_ascending (filtered_df (aggregate [] example_events [GOLDEN, DEATH]))"
  by (simp add: aggregate_def sort_values_desc_def example_events_def
      date_descending_symbol_ascending_def)

text \<open>
  C5, amended.  The result table holds the events in order of date, most recent first,
  whatever exchanges the sort makes among events of the same day; the order of events with
  equal dates is not fixed by their symbols.
\<close>

theorem result_is_date_descending:
  "date_descending (filtered_df (aggregate exchanges evs signal_filter))"
  by (simp add: aggregate_def Let_def date_descending_def sorted_wrt_filter_keep
      sort_values_desc_sorted)

theorem result_is_date_descending_witness:
  "date_descending (filtered_df (aggregate [] example_events [GOLDEN, DEATH]))"
  by (rule result_is_date_descending)

text \<open>
  C9.  The table keeps exactly the events whose direction is in the filter; the two
  metrics count the GOLDEN and the DEATH events of the filtered table, so a direction left
  out of the filter counts 0; and an empty filter gives an empty table and two zeros.
\<close>

theorem filter_and_counts:
  "mset (filtered_df (aggregate exchanges evs signal_filter)) =
     filter_mset (\<lambda>ev. Crossover ev \<in> set signal_filter) (mset evs) \<and>
   golden_crosses (aggregate exchanges evs signal_filter) =
     length (filter (\<lambda>ev. Crossover ev = GOLDEN) (filtered_df (aggregate exchanges evs signal_filter))) \<and>
   death_crosses (aggregate exchanges evs signal_filter) =
     length (filter (\<lambda>ev. Crossover ev = DEATH) (filtered_df (aggregate exchanges evs signal_filter))) \<and>
   golden_crosses (aggregate exchanges evs signal_filter) =
     (if GOLDEN \<in> set signal_filter
      then length (filter (\<lambda>ev. Crossover ev = GOLDEN) evs) else 0) \<and>
   death_crosses (aggregate exchanges evs signal_filter) =
     (if DEATH \<in> set signal_filter
      then length (filter (\<lambda>ev. Crossover ev = DEATH) evs) else 0) \<and>
   aggregate exchanges evs [] = \<lparr>filtered_df = [], golden_crosses = 0, death_crosses = 0\<rparr>"
proof -
  have len: "length (filter P (sort_values_desc exchanges evs)) = length (filter P evs)" for P
    using sort_values_desc_mset [of exchanges evs]
    by (metis mset_filter size_mset)
  have g: "filter (\<lambda>ev. Crossover ev \<in> set signal_filter \<and> Crossover ev = c) xs =
      (if c \<in> set signal_filter then filter (\<lambda>ev. Crossover ev = c) xs else [])"
    for c and xs :: "event list"
    by (induction xs) auto
  show ?thesis
    by (simp add: aggregate_def Let_def sort_values_desc_mset g len)
qed

theorem filter_and_counts_witness:
  "golden_crosses (aggregate [] example_events [GOLDEN]) = 1 \<and>
   death_crosses (aggregate [] example_events [GOLDEN]) = 0 \<and>
   aggregate [] example_events [] = \<lparr>filtered_df = [], golden_crosses = 0, death_crosses = 0\<rparr>"
  using filter_and_counts [of "[]" example_events "[GOLDEN]"] filter_and_counts [of "[]" example_events "[]"]
  by (simp add: example_events_def)

end
